theory Spec2Isabelle
  imports Main "HOL-Library.Sublist"
begin

section \<open>JavaScript values used by the serializer\<close>

text \<open>
  A JavaScript string is a \<^typ>\<open>string\<close>. The only string operations the squasher uses
  are \<^verbatim>\<open>String.prototype.split\<close> with a one-character separator and
  \<^verbatim>\<open>Array.prototype.join\<close>; both treat a string as a sequence of units and compare
  units for equality only.

  \<^verbatim>\<open>s.split(sep)\<close> always returns at least one field: \<^verbatim>\<open>''.split(';')\<close> is
  \<^verbatim>\<open>['']\<close>.
\<close>

fun js_split :: "char \<Rightarrow> string \<Rightarrow> string list" where
  "js_split sep [] = [[]]"
| "js_split sep (c # cs) =
     (if c = sep then [] # js_split sep cs
      else (case js_split sep cs of
              [] \<Rightarrow> [[c]]
            | w # ws \<Rightarrow> (c # w) # ws))"

fun js_join :: "string \<Rightarrow> string list \<Rightarrow> string" where
  "js_join sep [] = []"
| "js_join sep [x] = x"
| "js_join sep (x # y # ys) = x @ sep @ js_join sep (y # ys)"

text \<open>Array indexing and array destructuring: a position past the end reads \<^verbatim>\<open>undefined\<close>,
  here \<^term>\<open>None\<close>.\<close>

fun js_index :: "'a list \<Rightarrow> nat \<Rightarrow> 'a option" where
  "js_index [] i = None"
| "js_index (x # xs) 0 = Some x"
| "js_index (x # xs) (Suc i) = js_index xs i"

text \<open>Values of type \<^verbatim>\<open>any\<close> / \<^verbatim>\<open>unknown\<close>. Numbers are kept to the integers: no
  function below inspects a number.\<close>

datatype js_value =
    JUndefined
  | JNull
  | JBool bool
  | JNumber int
  | JString string
  | JArray "js_value list"
  | JObject "(string \<times> js_value) list"

text \<open>An object used as a dictionary (\<^verbatim>\<open>Record<string, T>\<close>) is the list of its entries,
  in the order \<^verbatim>\<open>Object.entries\<close> lists them; its keys are distinct. That JavaScript lists
  integer-like keys first is not modelled: the properties below are stated through the keys
  and the values under them.\<close>

type_synonym 'a js_record = "(string \<times> 'a) list"

definition js_keys :: "'a js_record \<Rightarrow> string list" where
  "js_keys obj = map fst obj"

definition js_entries :: "'a js_record \<Rightarrow> (string \<times> 'a) list" where
  "js_entries obj = obj"

text \<open>\<^verbatim>\<open>obj[k] = v\<close>: an existing key keeps its position, a new key is appended.\<close>

fun js_set :: "string \<Rightarrow> 'a \<Rightarrow> 'a js_record \<Rightarrow> 'a js_record" where
  "js_set k v [] = [(k, v)]"
| "js_set k v ((k', v') # obj) =
     (if k = k' then (k, v) # obj else (k', v') # js_set k v obj)"

definition js_fromEntries :: "(string \<times> 'a) list \<Rightarrow> 'a js_record" where
  "js_fromEntries es = foldl (\<lambda>obj (k, v). js_set k v obj) [] es"

text \<open>\<^verbatim>\<open>obj.k\<close> reads \<^verbatim>\<open>undefined\<close> when the object has no property \<^verbatim>\<open>k\<close>.\<close>

definition js_get :: "'a js_record \<Rightarrow> string \<Rightarrow> 'a option" where
  "js_get obj k = map_of obj k"

definition js_prop :: "js_value js_record \<Rightarrow> string \<Rightarrow> js_value" where
  "js_prop obj k = (case js_get obj k of None \<Rightarrow> JUndefined | Some v \<Rightarrow> v)"

text \<open>\<^verbatim>\<open>x ?? y\<close> on an optional value.\<close>

definition nullish_or :: "'a option \<Rightarrow> 'a \<Rightarrow> 'a" where
  "nullish_or x y = (case x of None \<Rightarrow> y | Some v \<Rightarrow> v)"

text \<open>What the functions below throw: the \<^verbatim>\<open>TypeError\<close> of a method call on
  \<^verbatim>\<open>undefined\<close>, the \<^verbatim>\<open>ZodError\<close> of a failed \<^verbatim>\<open>parse\<close>, and the rejection of a
  query by the database driver.\<close>

datatype error = TypeError | ZodError | QueryError


section \<open>serializer/singlestoreSchema: the snapshot schema\<close>

datatype index_using = Btree | Hash
datatype index_algorithm = Alg_default | Alg_inplace | Alg_copy
datatype index_lock = Lock_default | Lock_none | Lock_shared | Lock_exclusive

fun using_text :: "index_using \<Rightarrow> string" where
  "using_text Btree = ''btree''"
| "using_text Hash = ''hash''"

fun algorithm_text :: "index_algorithm \<Rightarrow> string" where
  "algorithm_text Alg_default = ''default''"
| "algorithm_text Alg_inplace = ''inplace''"
| "algorithm_text Alg_copy = ''copy''"

fun lock_text :: "index_lock \<Rightarrow> string" where
  "lock_text Lock_default = ''default''"
| "lock_text Lock_none = ''none''"
| "lock_text Lock_shared = ''shared''"
| "lock_text Lock_exclusive = ''exclusive''"

text \<open>The values the validators \<^verbatim>\<open>index\<close>, \<^verbatim>\<open>compositePK\<close> and
  \<^verbatim>\<open>uniqueConstraint\<close> accept are exactly the values of these records: any string is a
  name, any array of strings (the empty one too) is a column list, and an optional field is
  absent (\<^term>\<open>None\<close>) or one of its enumerated words.\<close>

record Index =
  idx_name :: string
  idx_columns :: "string list"
  idx_isUnique :: bool
  idx_using :: "index_using option"
  idx_algorithm :: "index_algorithm option"
  idx_lock :: "index_lock option"

record PrimaryKey =
  pk_name :: string
  pk_columns :: "string list"

record UniqueConstraint =
  unq_name :: string
  unq_columns :: "string list"

text \<open>\<^verbatim>\<open>enumType([...]).optional()\<close> applied to \<^verbatim>\<open>x ? x : undefined\<close>, where \<^verbatim>\<open>x\<close>
  is a destructured field: a missing field and the empty string are both falsy and give
  \<^verbatim>\<open>undefined\<close>, which the validator accepts; any other text must be one of the words.\<close>

fun parse_using :: "string option \<Rightarrow> error + index_using option" where
  "parse_using None = Inr None"
| "parse_using (Some s) =
     (if s = [] then Inr None
      else if s = ''btree'' then Inr (Some Btree)
      else if s = ''hash'' then Inr (Some Hash)
      else Inl ZodError)"

fun parse_algorithm :: "string option \<Rightarrow> error + index_algorithm option" where
  "parse_algorithm None = Inr None"
| "parse_algorithm (Some s) =
     (if s = [] then Inr None
      else if s = ''default'' then Inr (Some Alg_default)
      else if s = ''inplace'' then Inr (Some Alg_inplace)
      else if s = ''copy'' then Inr (Some Alg_copy)
      else Inl ZodError)"

fun parse_lock :: "string option \<Rightarrow> error + index_lock option" where
  "parse_lock None = Inr None"
| "parse_lock (Some s) =
     (if s = [] then Inr None
      else if s = ''default'' then Inr (Some Lock_default)
      else if s = ''none'' then Inr (Some Lock_none)
      else if s = ''shared'' then Inr (Some Lock_shared)
      else if s = ''exclusive'' then Inr (Some Lock_exclusive)
      else Inl ZodError)"


section \<open>SingleStoreSquasher\<close>

text \<open>The template literal prints a boolean as \<^verbatim>\<open>true\<close> or \<^verbatim>\<open>false\<close>, and
  \<^verbatim>\<open>x ?? ''\<close> prints an absent field as the empty string.\<close>

definition bool_text :: "bool \<Rightarrow> string" where
  "bool_text b = (if b then ''true'' else ''false'')"

definition or_empty :: "('a \<Rightarrow> string) \<Rightarrow> 'a option \<Rightarrow> string" where
  "or_empty f x = (case x of None \<Rightarrow> [] | Some v \<Rightarrow> f v)"

text \<open>\<^verbatim>\<open>squashIdx\<close> first runs \<^verbatim>\<open>index.parse(idx)\<close>; on a value of type \<^typ>\<open>Index\<close> that
  validation succeeds, so the function always returns its string.\<close>

definition squashIdx :: "Index \<Rightarrow> string" where
  "squashIdx idx =
     idx_name idx @ '';'' @ js_join '','' (idx_columns idx) @ '';'' @
     bool_text (idx_isUnique idx) @ '';'' @ or_empty using_text (idx_using idx) @ '';'' @
     or_empty algorithm_text (idx_algorithm idx) @ '';'' @ or_empty lock_text (idx_lock idx)"

text \<open>\<^verbatim>\<open>columnsString.split(',')\<close> on an \<^verbatim>\<open>undefined\<close> field is a \<^verbatim>\<open>TypeError\<close>; it is
  raised before \<^verbatim>\<open>index.parse\<close> runs. The validator then rejects an \<^verbatim>\<open>undefined\<close> name
  and any optional field that is not one of its words. An optional field that holds
  \<^verbatim>\<open>undefined\<close> and one that is missing are the same value, \<^term>\<open>None\<close>.\<close>

definition unsquashIdx :: "string \<Rightarrow> error + Index" where
  "unsquashIdx input =
     (let parts = js_split CHR '';'' input;
          name = js_index parts 0;
          columnsString = js_index parts 1;
          isUnique = js_index parts 2;
          using = js_index parts 3;
          algorithm = js_index parts 4;
          lock = js_index parts 5
      in case columnsString of
           None \<Rightarrow> Inl TypeError
         | Some cs \<Rightarrow>
             (case (name, parse_using using, parse_algorithm algorithm, parse_lock lock) of
                (Some n, Inr u, Inr a, Inr l) \<Rightarrow>
                  Inr \<lparr>idx_name = n, idx_columns = js_split CHR '','' cs,
                       idx_isUnique = (isUnique = Some ''true''),
                       idx_using = u, idx_algorithm = a, idx_lock = l\<rparr>
              | _ \<Rightarrow> Inl ZodError))"

definition squashPK :: "PrimaryKey \<Rightarrow> string" where
  "squashPK pk = pk_name pk @ '';'' @ js_join '','' (pk_columns pk)"

definition unsquashPK :: "string \<Rightarrow> error + PrimaryKey" where
  "unsquashPK pk =
     (let splitted = js_split CHR '';'' pk
      in case (js_index splitted 0, js_index splitted 1) of
           (Some n, Some cs) \<Rightarrow> Inr \<lparr>pk_name = n, pk_columns = js_split CHR '','' cs\<rparr>
         | _ \<Rightarrow> Inl TypeError)"

definition squashUnique :: "UniqueConstraint \<Rightarrow> string" where
  "squashUnique unq = unq_name unq @ '';'' @ js_join '','' (unq_columns unq)"

definition unsquashUnique :: "string \<Rightarrow> error + UniqueConstraint" where
  "unsquashUnique unq =
     (let parts = js_split CHR '';'' unq
      in case (js_index parts 0, js_index parts 1) of
           (Some n, Some cs) \<Rightarrow> Inr \<lparr>unq_name = n, unq_columns = js_split CHR '','' cs\<rparr>
         | _ \<Rightarrow> Inl TypeError)"



section \<open>squashSingleStoreScheme\<close>

datatype generated_type = Stored | Virtual

record Generated =
  gen_type :: generated_type
  gen_as :: string

record Column =
  col_name :: string
  col_type :: string
  col_primaryKey :: bool
  col_notNull :: bool
  col_autoincrement :: "bool option"
  col_default :: "js_value option"
  col_onUpdate :: "js_value option"
  col_generated :: "Generated option"

record Table =
  tbl_name :: string
  tbl_columns :: "Column js_record"
  tbl_indexes :: "Index js_record"
  tbl_compositePrimaryKeys :: "PrimaryKey js_record"
  tbl_uniqueConstraints :: "UniqueConstraint js_record"

text \<open>\<^verbatim>\<open>kitInternals\<close>: an object with the single property \<^verbatim>\<open>columns\<close> is kept as the
  value of that property, and an object with a single optional flag as that flag.\<close>

record SingleStoreKitInternals =
  internal_tables :: "bool option option js_record option js_record option"
  internal_indexes :: "bool option option js_record option js_record option"

record SchemaMeta =
  meta_tables :: "string js_record"
  meta_columns :: "string js_record"

record SingleStoreSchemaInternal =
  schema_version :: string
  schema_dialect :: string
  schema_tables :: "Table js_record"
  schema_meta :: SchemaMeta
  schema_internal :: "SingleStoreKitInternals option"

text \<open>\<^verbatim>\<open>schema = schemaInternal.merge(schemaHash)\<close>\<close>

record SingleStoreSchema = SingleStoreSchemaInternal +
  schema_id :: string
  schema_prevId :: string

record TableSquashed =
  sq_name :: string
  sq_columns :: "Column js_record"
  sq_indexes :: "string js_record"
  sq_compositePrimaryKeys :: "string js_record"
  sq_uniqueConstraints :: "string js_record"

record SingleStoreSchemaSquashed =
  squashed_version :: string
  squashed_dialect :: string
  squashed_tables :: "TableSquashed js_record"

text \<open>Modelled from the spec: \<^verbatim>\<open>mapValues\<close> is imported from \<^verbatim>\<open>../global\<close>, which is not
  among the sources. A squashed table is the table with each nested structure collapsed to
  its canonical string, so \<^verbatim>\<open>mapValues(obj, f)\<close> is the object with the keys of
  \<^verbatim>\<open>obj\<close>, each holding \<^verbatim>\<open>f\<close> of the value \<^verbatim>\<open>obj\<close> holds there.\<close>

definition mapValues :: "'a js_record \<Rightarrow> ('a \<Rightarrow> 'b) \<Rightarrow> 'b js_record" where
  "mapValues obj f = map (\<lambda>(k, v). (k, f v)) obj"

definition squashSingleStoreScheme :: "'z SingleStoreSchemaInternal_scheme \<Rightarrow> SingleStoreSchemaSquashed" where
  "squashSingleStoreScheme json =
     (let mappedTables = js_fromEntries
            (map (\<lambda>it.
                 let squashedIndexes = mapValues (tbl_indexes (snd it)) squashIdx;
                     squashedPKs = mapValues (tbl_compositePrimaryKeys (snd it)) squashPK;
                     squashedUniqueConstraints =
                       mapValues (tbl_uniqueConstraints (snd it)) squashUnique
                 in (fst it,
                     \<lparr>sq_name = tbl_name (snd it),
                      sq_columns = tbl_columns (snd it),
                      sq_indexes = squashedIndexes,
                      sq_compositePrimaryKeys = squashedPKs,
                      sq_uniqueConstraints = squashedUniqueConstraints\<rparr>))
               (js_entries (schema_tables json)))
      in \<lparr>squashed_version = ''1'',
          squashed_dialect = schema_dialect json,
          squashed_tables = mappedTables\<rparr>)"


section \<open>api: snapshots, migrations, upgrade\<close>

text \<open>The collaborators that are not among the sources are parameters, under the names the
  code imports them by: \<^verbatim>\<open>prepareFromExports\<close> and the snapshot generators of the
  serializers, the value \<^verbatim>\<open>randomUUID()\<close> returns, and the constant \<^verbatim>\<open>originUUID\<close> of
  \<^verbatim>\<open>./global\<close>. An optional argument that is not passed is \<^term>\<open>None\<close>. The collaborators
  are taken to return: when one of them throws, the function throws with it and returns
  nothing.\<close>

record 't Prepared =
  prepared_tables :: 't

record ('t, 'e, 's, 'q) PgPrepared = "'t Prepared" +
  prepared_enums :: 'e
  prepared_schemas :: 's
  prepared_sequences :: 'q

definition generateSingleStoreDrizzleJson ::
  "('i \<Rightarrow> ('t, 'z) Prepared_scheme) \<Rightarrow> ('t \<Rightarrow> SingleStoreSchemaInternal) \<Rightarrow> string \<Rightarrow> string \<Rightarrow>
   'i \<Rightarrow> string option \<Rightarrow> SingleStoreSchema" where
  "generateSingleStoreDrizzleJson prepareFromExports generateSingleStoreSnapshot randomUUID originUUID
       imports prevId =
     (let prepared = prepareFromExports imports;
          id = randomUUID;
          snapshot = generateSingleStoreSnapshot (prepared_tables prepared)
      in \<lparr>schema_version = schema_version snapshot,
          schema_dialect = schema_dialect snapshot,
          schema_tables = schema_tables snapshot,
          schema_meta = schema_meta snapshot,
          schema_internal = schema_internal snapshot,
          schema_id = id,
          schema_prevId = nullish_or prevId originUUID\<rparr>)"

text \<open>The MySQL and SQLite snapshot types are not among the sources; their snapshots are
  plain objects, and \<^verbatim>\<open>{...snapshot, id, prevId: prevId ?? originUUID}\<close> copies the
  properties of the snapshot and then sets the two identifiers.\<close>

definition generateMySQLDrizzleJson ::
  "('i \<Rightarrow> ('t, 'z) Prepared_scheme) \<Rightarrow> ('t \<Rightarrow> js_value js_record) \<Rightarrow> string \<Rightarrow> string \<Rightarrow>
   'i \<Rightarrow> string option \<Rightarrow> js_value js_record" where
  "generateMySQLDrizzleJson prepareFromExports generateMySqlSnapshot randomUUID originUUID
       imports prevId =
     (let prepared = prepareFromExports imports;
          id = randomUUID;
          snapshot = generateMySqlSnapshot (prepared_tables prepared)
      in js_set ''prevId'' (JString (nullish_or prevId originUUID))
           (js_set ''id'' (JString id) (js_entries snapshot)))"

definition generateSQLiteDrizzleJson ::
  "('i \<Rightarrow> ('t, 'z) Prepared_scheme) \<Rightarrow> ('t \<Rightarrow> js_value js_record) \<Rightarrow> string \<Rightarrow> string \<Rightarrow>
   'i \<Rightarrow> string option \<Rightarrow> js_value js_record" where
  "generateSQLiteDrizzleJson prepareFromExports generateSqliteSnapshot randomUUID originUUID
       imports prevId =
     (let prepared = prepareFromExports imports;
          id = randomUUID;
          snapshot = generateSqliteSnapshot (prepared_tables prepared)
      in js_set ''prevId'' (JString (nullish_or prevId originUUID))
           (js_set ''id'' (JString id) (js_entries snapshot)))"

text \<open>Modelled from the spec: \<^verbatim>\<open>fillPgSnapshot\<close> is imported from
  \<^verbatim>\<open>./migrationPreparator\<close>, which is not among the sources. A snapshot carries \<^verbatim>\<open>id\<close>
  and \<^verbatim>\<open>prevId\<close>, the latter naming the snapshot it follows, so the function is the
  serialized snapshot with \<^verbatim>\<open>id\<close> set to \<^verbatim>\<open>id\<close> and \<^verbatim>\<open>prevId\<close> set to
  \<^verbatim>\<open>idPrev\<close>.\<close>

definition fillPgSnapshot :: "js_value js_record \<Rightarrow> string \<Rightarrow> string \<Rightarrow> js_value js_record" where
  "fillPgSnapshot = (\<lambda>serialized id idPrev.
     js_set ''prevId'' (JString idPrev) (js_set ''id'' (JString id) (js_entries serialized)))"

definition generateDrizzleJson ::
  "('i \<Rightarrow> ('t, 'e, 's, 'q) PgPrepared) \<Rightarrow>
   ('t \<Rightarrow> 'e \<Rightarrow> 's \<Rightarrow> 'q \<Rightarrow> string list option \<Rightarrow> js_value js_record) \<Rightarrow> string \<Rightarrow> string \<Rightarrow>
   'i \<Rightarrow> string option \<Rightarrow> string list option \<Rightarrow> js_value js_record" where
  "generateDrizzleJson prepareFromExports generatePgSnapshot randomUUID originUUID
       imports prevId schemaFilters =
     (let prepared = prepareFromExports imports;
          id = randomUUID;
          snapshot = generatePgSnapshot (prepared_tables prepared) (prepared_enums prepared)
                       (prepared_schemas prepared) (prepared_sequences prepared) schemaFilters
      in fillPgSnapshot snapshot id (nullish_or prevId originUUID))"

text \<open>Migrations. \<^verbatim>\<open>parse\<close> is the \<^verbatim>\<open>parse\<close> method of the dialect's schema validator: it
  returns the validated snapshot or throws. The differ of \<^verbatim>\<open>./snapshotsDiffer\<close> is not
  among the sources; it is called with the resolvers of \<^verbatim>\<open>./cli/commands/migrate\<close>, which
  may ask the operator, so it acts on a world \<^typ>\<open>'w\<close> and may throw. A thrown error is
  \<^term>\<open>Inl\<close>; the world is returned as the call left it.\<close>

record ('s, 'm) SnapshotsDiff =
  diff_statements :: "'s list"
  diff_sqlStatements :: "string list"
  diff_meta :: 'm

definition generateSingleStoreMigration ::
  "('raw \<Rightarrow> error + SingleStoreSchema) \<Rightarrow>
   (SingleStoreSchemaSquashed \<Rightarrow> SingleStoreSchemaSquashed \<Rightarrow> SingleStoreSchema \<Rightarrow> SingleStoreSchema \<Rightarrow>
      'w \<Rightarrow> (error + ('s, 'm) SnapshotsDiff) \<times> 'w) \<Rightarrow>
   'raw \<Rightarrow> 'raw \<Rightarrow> 'w \<Rightarrow> (error + string list) \<times> 'w" where
  "generateSingleStoreMigration parse applySingleStoreSnapshotsDiff prev cur w =
     (case parse prev of
        Inl e \<Rightarrow> (Inl e, w)
      | Inr validatedPrev \<Rightarrow>
          (case parse cur of
             Inl e \<Rightarrow> (Inl e, w)
           | Inr validatedCur \<Rightarrow>
               (let squashedPrev = squashSingleStoreScheme validatedPrev;
                    squashedCur = squashSingleStoreScheme validatedCur
                in case applySingleStoreSnapshotsDiff squashedPrev squashedCur
                          validatedPrev validatedCur w of
                     (Inl e, w') \<Rightarrow> (Inl e, w')
                   | (Inr d, w') \<Rightarrow> (Inr (diff_sqlStatements d), w'))))"

text \<open>The schemas and squashers of the other dialects are not among the sources either:
  \<^verbatim>\<open>squash\<close> is the dialect's \<^verbatim>\<open>squash...Scheme\<close>.\<close>

definition generateMigration ::
  "('raw \<Rightarrow> error + 'v) \<Rightarrow> ('v \<Rightarrow> 'q) \<Rightarrow>
   ('q \<Rightarrow> 'q \<Rightarrow> 'v \<Rightarrow> 'v \<Rightarrow> 'w \<Rightarrow> (error + ('s, 'm) SnapshotsDiff) \<times> 'w) \<Rightarrow>
   'raw \<Rightarrow> 'raw \<Rightarrow> 'w \<Rightarrow> (error + string list) \<times> 'w" where
  "generateMigration parse squashPgScheme applyPgSnapshotsDiff prev cur w =
     (case parse prev of
        Inl e \<Rightarrow> (Inl e, w)
      | Inr validatedPrev \<Rightarrow>
          (case parse cur of
             Inl e \<Rightarrow> (Inl e, w)
           | Inr validatedCur \<Rightarrow>
               (let squashedPrev = squashPgScheme validatedPrev;
                    squashedCur = squashPgScheme validatedCur
                in case applyPgSnapshotsDiff squashedPrev squashedCur validatedPrev validatedCur w of
                     (Inl e, w') \<Rightarrow> (Inl e, w')
                   | (Inr d, w') \<Rightarrow> (Inr (diff_sqlStatements d), w'))))"

definition generateSQLiteMigration ::
  "('raw \<Rightarrow> error + 'v) \<Rightarrow> ('v \<Rightarrow> 'q) \<Rightarrow>
   ('q \<Rightarrow> 'q \<Rightarrow> 'v \<Rightarrow> 'v \<Rightarrow> 'w \<Rightarrow> (error + ('s, 'm) SnapshotsDiff) \<times> 'w) \<Rightarrow>
   'raw \<Rightarrow> 'raw \<Rightarrow> 'w \<Rightarrow> (error + string list) \<times> 'w" where
  "generateSQLiteMigration parse squashSqliteScheme applySqliteSnapshotsDiff prev cur w =
     (case parse prev of
        Inl e \<Rightarrow> (Inl e, w)
      | Inr validatedPrev \<Rightarrow>
          (case parse cur of
             Inl e \<Rightarrow> (Inl e, w)
           | Inr validatedCur \<Rightarrow>
               (let squashedPrev = squashSqliteScheme validatedPrev;
                    squashedCur = squashSqliteScheme validatedCur
                in case applySqliteSnapshotsDiff squashedPrev squashedCur validatedPrev validatedCur w of
                     (Inl e, w') \<Rightarrow> (Inl e, w')
                   | (Inr d, w') \<Rightarrow> (Inr (diff_sqlStatements d), w'))))"

definition generateMySQLMigration ::
  "('raw \<Rightarrow> error + 'v) \<Rightarrow> ('v \<Rightarrow> 'q) \<Rightarrow>
   ('q \<Rightarrow> 'q \<Rightarrow> 'v \<Rightarrow> 'v \<Rightarrow> 'w \<Rightarrow> (error + ('s, 'm) SnapshotsDiff) \<times> 'w) \<Rightarrow>
   'raw \<Rightarrow> 'raw \<Rightarrow> 'w \<Rightarrow> (error + string list) \<times> 'w" where
  "generateMySQLMigration parse squashMysqlScheme applyMysqlSnapshotsDiff prev cur w =
     (case parse prev of
        Inl e \<Rightarrow> (Inl e, w)
      | Inr validatedPrev \<Rightarrow>
          (case parse cur of
             Inl e \<Rightarrow> (Inl e, w)
           | Inr validatedCur \<Rightarrow>
               (let squashedPrev = squashMysqlScheme validatedPrev;
                    squashedCur = squashMysqlScheme validatedCur
                in case applyMysqlSnapshotsDiff squashedPrev squashedCur validatedPrev validatedCur w of
                     (Inl e, w') \<Rightarrow> (Inl e, w')
                   | (Inr d, w') \<Rightarrow> (Inr (diff_sqlStatements d), w'))))"

text \<open>\<^verbatim>\<open>upPgSnapshot\<close>: the two upgrade steps of \<^verbatim>\<open>./cli/commands/pgUp\<close> are parameters.
  \<^verbatim>\<open>snapshot.version === '5'\<close> holds for the string \<^verbatim>\<open>'5'\<close> only.\<close>

definition upPgSnapshot ::
  "(js_value js_record \<Rightarrow> js_value js_record) \<Rightarrow> (js_value js_record \<Rightarrow> js_value js_record) \<Rightarrow>
   js_value js_record \<Rightarrow> js_value js_record" where
  "upPgSnapshot upPgV6 upPgV7 snapshot =
     (if js_prop snapshot ''version'' = JString ''5'' then upPgV7 (upPgV6 snapshot)
      else if js_prop snapshot ''version'' = JString ''6'' then upPgV7 snapshot
      else snapshot)"


section \<open>Pushing: the connection, the terminal and the process\<close>

text \<open>
  A push talks to three things: the database connection (\<^verbatim>\<open>db.query\<close>), the terminal
  (\<^verbatim>\<open>render\<close>, \<^verbatim>\<open>console.log\<close>, the \<^verbatim>\<open>Select\<close> prompt) and the process
  (\<^verbatim>\<open>process.exit\<close>). The world records the state of the connection, the events so far in
  the order they happened, and whether the function is still running, has thrown, or has
  ended the process. An \<^verbatim>\<open>await\<close>ed call is finished before the next statement of the
  function starts, so every operation takes the world the previous one left; an operation
  reached after a throw or an exit does nothing.

  The driver is a parameter: given the SQL text and the state of the connection it resolves
  or rejects, and leaves the connection in a new state. Colours of the output are not
  modelled; the fixed texts that \<^verbatim>\<open>render\<close> prints are the constructors of
  \<^verbatim>\<open>message\<close>, and a \<^verbatim>\<open>Select\<close> prompt is identified by its kind and by the three counts
  its second option prints.
\<close>

datatype 'c reply = Resolved 'c | Rejected 'c

type_synonym 'c driver = "string \<Rightarrow> 'c \<Rightarrow> 'c reply"

datatype message = No_changes_detected | All_changes_were_aborted | Changes_applied

datatype prompt = Execute_all_statements | Data_loss nat nat nat

datatype event =
    Render message
  | Log string
  | Log_error error
  | Select prompt
  | Query string
  | Batch "string list"

datatype status = Running | Thrown error | Exited nat

record 'c world =
  conn :: 'c
  trace :: "event list"
  status :: status

definition emit :: "event \<Rightarrow> 'c world \<Rightarrow> 'c world" where
  "emit e w = (if status w = Running then w\<lparr>trace := trace w @ [e]\<rparr> else w)"

definition emits :: "event list \<Rightarrow> 'c world \<Rightarrow> 'c world" where
  "emits es w = foldl (\<lambda>w e. emit e w) w es"

definition db_query :: "'c driver \<Rightarrow> string \<Rightarrow> 'c world \<Rightarrow> 'c world" where
  "db_query q s w =
     (if status w = Running then
        (case q s (conn w) of
           Resolved c \<Rightarrow> w\<lparr>conn := c, trace := trace w @ [Query s]\<rparr>
         | Rejected c \<Rightarrow> w\<lparr>conn := c, trace := trace w @ [Query s], status := Thrown QueryError\<rparr>)
      else w)"


definition process_exit :: "nat \<Rightarrow> 'c world \<Rightarrow> 'c world" where
  "process_exit n w = (if status w = Running then w\<lparr>status := Exited n\<rparr> else w)"

text \<open>\<^verbatim>\<open>for (const dStmnt of statements) { await db.query(dStmnt); }\<close>\<close>

definition for_each_query :: "'c driver \<Rightarrow> string list \<Rightarrow> 'c world \<Rightarrow> 'c world" where
  "for_each_query q statements w = foldl (\<lambda>w dStmnt. db_query q dStmnt w) w statements"

text \<open>\<^verbatim>\<open>try { ... } catch (e) { console.log(e); }\<close> around a body that has run.\<close>

definition catch_log :: "'c world \<Rightarrow> 'c world" where
  "catch_log w =
     (case status w of
        Thrown e \<Rightarrow> w\<lparr>trace := trace w @ [Log_error e], status := Running\<rparr>
      | _ \<Rightarrow> w)"

text \<open>The prompt and the test that follows it at each of its uses:
  \<^verbatim>\<open>const { status, data } = await render(new Select([...]));
  if (data?.index === 0) { render('All changes were aborted'); process.exit(0); }\<close>.
  The operator is the parameter \<^verbatim>\<open>select\<close>: the value of \<^verbatim>\<open>data?.index\<close> for a prompt,
  \<^term>\<open>None\<close> when \<^verbatim>\<open>data\<close> is \<^verbatim>\<open>undefined\<close>.\<close>

definition select_or_abort :: "(prompt \<Rightarrow> nat option) \<Rightarrow> prompt \<Rightarrow> 'c world \<Rightarrow> 'c world" where
  "select_or_abort select p w =
     (let w' = emit (Select p) w
      in if select p = Some 0 then process_exit 0 (emit (Render All_changes_were_aborted) w')
         else w')"

text \<open>The result of \<^verbatim>\<open>logSuggestionsAndReturn\<close> (\<^verbatim>\<open>pgSuggestions\<close> for PostgreSQL), the
  data-loss classifier, which is not among the sources.\<close>

record Suggestions =
  shouldAskForApprove :: bool
  statementsToExecute :: "string list"
  columnsToRemove :: "string list"
  tablesToRemove :: "string list"
  tablesToTruncate :: "string list"
  infoToPrint :: "string list"

text \<open>\<^verbatim>\<open>statements.forEach((ss) => { if (!unique.includes(ss)) { unique.push(ss); } })\<close>\<close>

definition push_if_new :: "string list \<Rightarrow> string \<Rightarrow> string list" where
  "push_if_new unique ss = (if ss \<notin> set unique then unique @ [ss] else unique)"

definition unique_statements :: "string list \<Rightarrow> string list" where
  "unique_statements statements = foldl push_if_new [] statements"

definition verbose_log :: "string list \<Rightarrow> 'c world \<Rightarrow> 'c world" where
  "verbose_log statements w =
     emits [Log [], Log ''You are about to execute current statements:'', Log [],
            Log (js_join [CHR 0x0A] statements), Log []] w"

definition strict_prompt ::
  "(prompt \<Rightarrow> nat option) \<Rightarrow> bool \<Rightarrow> bool \<Rightarrow> Suggestions \<Rightarrow> 'c world \<Rightarrow> 'c world" where
  "strict_prompt select force strict sg w =
     (if \<not> force \<and> strict then
        (if \<not> shouldAskForApprove sg then select_or_abort select Execute_all_statements w else w)
      else w)"

definition data_loss_prompt ::
  "(prompt \<Rightarrow> nat option) \<Rightarrow> bool \<Rightarrow> Suggestions \<Rightarrow> 'c world \<Rightarrow> 'c world" where
  "data_loss_prompt select force sg w =
     (if \<not> force \<and> shouldAskForApprove sg then
        select_or_abort select
          (Data_loss (length (tablesToRemove sg)) (length (columnsToRemove sg))
             (length (tablesToTruncate sg)))
          (emits [Log ''Found data-loss statements:'', Log (js_join [CHR 0x0A] (infoToPrint sg)),
                  Log [], Log (''THIS ACTION WILL CAUSE DATA LOSS AND CANNOT BE REVERTED'' @ [CHR 0x0A]),
                  Log ''Do you still want to push changes?''] w)
      else w)"

text \<open>\<^verbatim>\<open>singlestorePush\<close> and \<^verbatim>\<open>mysqlPush\<close>, from the point where the collaborators that are
  not among the sources have returned: \<^verbatim>\<open>filteredStatements\<close> is the result of
  \<^verbatim>\<open>filterStatements\<close>, \<^verbatim>\<open>sg\<close> that of \<^verbatim>\<open>logSuggestionsAndReturn\<close>, and
  \<^verbatim>\<open>filteredSqlStatements\<close> that of \<^verbatim>\<open>fromJson\<close>. The queries the introspection and
  the classifier sent to read the database lie before that point: they are in the trace the
  function starts with. The two functions differ in the dialect they pass to their
  collaborators only.\<close>

definition singlestorePush ::
  "'c driver \<Rightarrow> (prompt \<Rightarrow> nat option) \<Rightarrow> 's list \<Rightarrow> Suggestions \<Rightarrow> string list \<Rightarrow>
   bool \<Rightarrow> bool \<Rightarrow> bool \<Rightarrow> 'c world \<Rightarrow> 'c world" where
  "singlestorePush q select filteredStatements sg filteredSqlStatements strict verbose force w =
     catch_log
       (if length filteredStatements = 0 then emit (Render No_changes_detected) w
        else
          (let uniqueSqlStatementsToExecute = unique_statements (statementsToExecute sg);
               uniqueFilteredSqlStatements = unique_statements filteredSqlStatements;
               w1 = (if verbose
                     then verbose_log (uniqueSqlStatementsToExecute @ uniqueFilteredSqlStatements) w
                     else w);
               w2 = strict_prompt select force strict sg w1;
               w3 = data_loss_prompt select force sg w2;
               w4 = for_each_query q uniqueSqlStatementsToExecute w3;
               w5 = for_each_query q uniqueFilteredSqlStatements w4
           in if length filteredStatements > 0 then emit (Render Changes_applied) w5
              else emit (Render No_changes_detected) w5))"

definition mysqlPush ::
  "'c driver \<Rightarrow> (prompt \<Rightarrow> nat option) \<Rightarrow> 's list \<Rightarrow> Suggestions \<Rightarrow> string list \<Rightarrow>
   bool \<Rightarrow> bool \<Rightarrow> bool \<Rightarrow> 'c world \<Rightarrow> 'c world" where
  "mysqlPush q select filteredStatements sg filteredSqlStatements strict verbose force w =
     catch_log
       (if length filteredStatements = 0 then emit (Render No_changes_detected) w
        else
          (let uniqueSqlStatementsToExecute = unique_statements (statementsToExecute sg);
               uniqueFilteredSqlStatements = unique_statements filteredSqlStatements;
               w1 = (if verbose
                     then verbose_log (uniqueSqlStatementsToExecute @ uniqueFilteredSqlStatements) w
                     else w);
               w2 = strict_prompt select force strict sg w1;
               w3 = data_loss_prompt select force sg w2;
               w4 = for_each_query q uniqueSqlStatementsToExecute w3;
               w5 = for_each_query q uniqueFilteredSqlStatements w4
           in if length filteredStatements > 0 then emit (Render Changes_applied) w5
              else emit (Render No_changes_detected) w5))"







section \<open>Predicates used to state the properties\<close>

text \<open>A name and a column list that the encoding can carry: no field delimiter in the name,
  at least one column, and neither delimiter in a column.\<close>

definition delimiter_free :: "string \<Rightarrow> string list \<Rightarrow> bool" where
  "delimiter_free name columns \<longleftrightarrow>
     CHR '';'' \<notin> set name \<and> columns \<noteq> [] \<and>
     (\<forall>c \<in> set columns. CHR '';'' \<notin> set c \<and> CHR '','' \<notin> set c)"


text \<open>The elements of a list at the positions of first occurrence, in the order of the list.\<close>

definition first_occurrences :: "'a list \<Rightarrow> 'a list" where
  "first_occurrences xs = map (\<lambda>i. xs ! i) (filter (\<lambda>i. xs ! i \<notin> set (take i xs)) [0..<length xs])"

text \<open>The SQL texts sent to the connection, in order, and the prompts shown.\<close>

fun queries :: "event list \<Rightarrow> string list" where
  "queries [] = []"
| "queries (Query s # es) = s # queries es"
| "queries (e # es) = queries es"

fun prompts :: "event list \<Rightarrow> prompt list" where
  "prompts [] = []"
| "prompts (Select p # es) = p # prompts es"
| "prompts (e # es) = prompts es"

text \<open>The state of the connection after the given statements have been sent one after the
  other, each to the state the one before it left.\<close>

fun reply_conn :: "'c reply \<Rightarrow> 'c" where
  "reply_conn (Resolved c) = c"
| "reply_conn (Rejected c) = c"

definition sent_in_turn :: "'c driver \<Rightarrow> 'c \<Rightarrow> string list \<Rightarrow> 'c" where
  "sent_in_turn q c statements = foldl (\<lambda>c s. reply_conn (q s c)) c statements"


text \<open>The statements a loop of \<^verbatim>\<open>await db.query\<close> sends when it starts on a connection in
  state \<^verbatim>\<open>c\<close>: each statement is sent to the state the one before it left, and the loop
  ends with the first statement the driver rejects.\<close>

fun sent_until_rejected :: "'c driver \<Rightarrow> 'c \<Rightarrow> string list \<Rightarrow> string list" where
  "sent_until_rejected q c [] = []"
| "sent_until_rejected q c (s # ss) =
     (case q s c of Resolved c' \<Rightarrow> s # sent_until_rejected q c' ss | Rejected c' \<Rightarrow> [s])"

fun all_resolved :: "'c driver \<Rightarrow> 'c \<Rightarrow> string list \<Rightarrow> bool" where
  "all_resolved q c [] = True"
| "all_resolved q c (s # ss) =
     (case q s c of Resolved c' \<Rightarrow> all_resolved q c' ss | Rejected c' \<Rightarrow> False)"





section \<open>Concrete inputs\<close>

definition example_users :: Table where
  "example_users =
     \<lparr>tbl_name = ''users'',
      tbl_columns = [(''id'', \<lparr>col_name = ''id'', col_type = ''serial'', col_primaryKey = True,
                        col_notNull = True, col_autoincrement = Some True, col_default = None,
                        col_onUpdate = None, col_generated = None\<rparr>),
                     (''name'', \<lparr>col_name = ''name'', col_type = ''varchar(50)'',
                        col_primaryKey = False, col_notNull = True, col_autoincrement = None,
                        col_default = Some (JString ''anonymous''), col_onUpdate = None,
                        col_generated = None\<rparr>)],
      tbl_indexes = [(''name_idx'', \<lparr>idx_name = ''name_idx'', idx_columns = [''name''],
                        idx_isUnique = False, idx_using = None, idx_algorithm = None,
                        idx_lock = None\<rparr>)],
      tbl_compositePrimaryKeys = [(''users_pk'', \<lparr>pk_name = ''users_pk'', pk_columns = [''id'', ''name'']\<rparr>)],
      tbl_uniqueConstraints = [(''users_name_unique'',
                        \<lparr>unq_name = ''users_name_unique'', unq_columns = [''name'']\<rparr>)]\<rparr>"

definition example_snapshot :: SingleStoreSchema where
  "example_snapshot =
     \<lparr>schema_version = ''1'', schema_dialect = ''singlestore'',
      schema_tables = [(''users'', example_users)],
      schema_meta = \<lparr>meta_tables = [], meta_columns = []\<rparr>,
      schema_internal = None,
      schema_id = ''6c2e3f0a-0000-4000-8000-000000000001'',
      schema_prevId = ''00000000-0000-0000-0000-000000000000''\<rparr>"

text \<open>A validator that accepts one document, a differ that asks the operator once and
  returns one statement, and serializers that return fixed snapshots.\<close>

definition example_parse :: "js_value \<Rightarrow> error + SingleStoreSchema" where
  "example_parse raw = (if raw = JString ''users snapshot'' then Inr example_snapshot else Inl ZodError)"

definition example_differ ::
  "SingleStoreSchemaSquashed \<Rightarrow> SingleStoreSchemaSquashed \<Rightarrow> SingleStoreSchema \<Rightarrow> SingleStoreSchema \<Rightarrow>
   string list \<Rightarrow> (error + (unit, unit) SnapshotsDiff) \<times> string list" where
  "example_differ squashedPrev squashedCur validatedPrev validatedCur w =
     (Inr \<lparr>diff_statements = [], diff_sqlStatements = [''CREATE TABLE users;''], diff_meta = ()\<rparr>,
      w @ [''Is users table created or renamed from another table?''])"

definition example_prepare :: "string list \<Rightarrow> (string list, unit, unit, unit) PgPrepared" where
  "example_prepare imports =
     \<lparr>prepared_tables = imports, prepared_enums = (), prepared_schemas = (),
      prepared_sequences = ()\<rparr>"

definition example_serialize :: "string list \<Rightarrow> SingleStoreSchemaInternal" where
  "example_serialize tables = SingleStoreSchemaInternal.truncate example_snapshot"

definition example_serialize_object :: "string list \<Rightarrow> js_value js_record" where
  "example_serialize_object tables =
     [(''version'', JString ''5''), (''dialect'', JString ''mysql''), (''tables'', JObject [])]"

definition example_serialize_pg ::
  "string list \<Rightarrow> unit \<Rightarrow> unit \<Rightarrow> unit \<Rightarrow> string list option \<Rightarrow> js_value js_record" where
  "example_serialize_pg tables enums schemas sequences schemaFilters =
     [(''version'', JString ''7''), (''dialect'', JString ''postgresql''), (''tables'', JObject [])]"

definition example_upV6 :: "js_value js_record \<Rightarrow> js_value js_record" where
  "example_upV6 snapshot = js_set ''version'' (JString ''6'') snapshot"

definition example_upV7 :: "js_value js_record \<Rightarrow> js_value js_record" where
  "example_upV7 snapshot = js_set ''version'' (JString ''7'') (js_set ''sequences'' (JObject []) snapshot)"



definition example_world :: "string list world" where
  "example_world = \<lparr>conn = [], trace = [], status = Running\<rparr>"

definition example_suggestions :: Suggestions where
  "example_suggestions =
     \<lparr>shouldAskForApprove = True,
      statementsToExecute = [''ALTER TABLE users DROP COLUMN age;'', ''DROP TABLE sessions;'',
                             ''ALTER TABLE users DROP COLUMN age;''],
      columnsToRemove = [''age''],
      tablesToRemove = [''sessions''],
      tablesToTruncate = [],
      infoToPrint = [''You are about to delete age column in users table with 3 items'']\<rparr>"


definition answer_yes :: "prompt \<Rightarrow> nat option" where
  "answer_yes p = Some 1"





definition accepting_driver :: "string list driver" where
  "accepting_driver s c = Resolved (c @ [s])"



section \<open>Splitting and joining\<close>

lemma js_split_not_Nil: "js_split sep s \<noteq> []"
  by (induction s) (auto split: list.splits)

lemma js_split_no_sep: "sep \<notin> set s \<Longrightarrow> js_split sep s = [s]"
  by (induction s) auto

lemma js_split_append_sep:
  "sep \<notin> set a \<Longrightarrow> js_split sep (a @ sep # b) = a # js_split sep b"
  by (induction a) auto

lemma js_split_join_Cons:
  "\<forall>y \<in> set (x # xs). sep \<notin> set y \<Longrightarrow> js_split sep (js_join [sep] (x # xs)) = x # xs"
proof (induction xs arbitrary: x)
  case Nil
  then show ?case by (simp add: js_split_no_sep)
next
  case (Cons y ys)
  then have "js_split sep (js_join [sep] (y # ys)) = y # ys" by simp
  with Cons.prems show ?case by (simp add: js_split_append_sep)
qed

lemma js_split_join:
  "xs \<noteq> [] \<Longrightarrow> \<forall>x \<in> set xs. sep \<notin> set x \<Longrightarrow> js_split sep (js_join [sep] xs) = xs"
  using js_split_join_Cons [of _ _ sep] by (cases xs) auto

lemma js_join_no_sep:
  "\<forall>x \<in> set xs. c \<notin> set x \<Longrightarrow> c \<notin> set sep \<Longrightarrow> c \<notin> set (js_join sep xs)"
  by (induction sep xs rule: js_join.induct) auto

lemma js_split_fields_no_sep: "w \<in> set (js_split sep s) \<Longrightarrow> sep \<notin> set w"
  by (induction s arbitrary: w) (auto split: if_splits list.splits)

lemma js_split_fields_subset: "w \<in> set (js_split sep s) \<Longrightarrow> set w \<subseteq> set s"
proof (induction s arbitrary: w)
  case Nil
  then show ?case by simp
next
  case (Cons c cs)
  obtain v vs where vs: "js_split sep cs = v # vs"
    using js_split_not_Nil [of sep cs] by (cases "js_split sep cs") auto
  have "set v \<subseteq> set cs" "\<forall>u \<in> set vs. set u \<subseteq> set cs"
    using Cons.IH vs by auto
  with Cons.prems vs show ?case
    by (auto split: if_splits)
qed

lemma js_index_nth: "js_index xs i = (if i < length xs then Some (xs ! i) else None)"
  by (induction xs i rule: js_index.induct) auto

lemma or_empty_using_no_semi: "CHR '';'' \<notin> set (or_empty using_text u)"
  by (cases u; cases "the u") (auto simp: or_empty_def)
lemma or_empty_algorithm_no_semi: "CHR '';'' \<notin> set (or_empty algorithm_text u)"
  by (cases u; cases "the u") (auto simp: or_empty_def)
lemma or_empty_lock_no_semi: "CHR '';'' \<notin> set (or_empty lock_text u)"
  by (cases u; cases "the u") (auto simp: or_empty_def)
lemma bool_text_no_semi: "CHR '';'' \<notin> set (bool_text b)"
  by (simp add: bool_text_def)

lemma parse_using_text: "parse_using (Some (or_empty using_text u)) = Inr u"
  by (cases u; cases "the u") (auto simp: or_empty_def)
lemma parse_algorithm_text: "parse_algorithm (Some (or_empty algorithm_text u)) = Inr u"
  by (cases u; cases "the u") (auto simp: or_empty_def)
lemma parse_lock_text: "parse_lock (Some (or_empty lock_text u)) = Inr u"
  by (cases u; cases "the u") (auto simp: or_empty_def)

lemma bool_text_true: "(bool_text b = ''true'') = b"
  by (simp add: bool_text_def)

lemma squashIdx_fields:
  assumes "CHR '';'' \<notin> set n" "CHR '';'' \<notin> set j"
  shows "js_split CHR '';'' (n @ '';'' @ j @ '';'' @ bool_text b @ '';'' @ or_empty using_text u @ '';'' @
     or_empty algorithm_text a @ '';'' @ or_empty lock_text l)
   = [n, j, bool_text b, or_empty using_text u, or_empty algorithm_text a, or_empty lock_text l]"
  using assms
  by (simp add: js_split_append_sep js_split_no_sep bool_text_no_semi or_empty_using_no_semi
      or_empty_algorithm_no_semi or_empty_lock_no_semi)

lemma unsquashIdx_squashIdx:
  assumes "delimiter_free (idx_name idx) (idx_columns idx)"
  shows "unsquashIdx (squashIdx idx) = Inr idx"
proof -
  from assms have n: "CHR '';'' \<notin> set (idx_name idx)"
    and j: "CHR '';'' \<notin> set (js_join '','' (idx_columns idx))"
    and c: "js_split CHR '','' (js_join '','' (idx_columns idx)) = idx_columns idx"
    by (auto simp: delimiter_free_def js_join_no_sep js_split_join)
  show ?thesis
    unfolding unsquashIdx_def squashIdx_def squashIdx_fields [OF n j]
    by (simp add: c js_index_nth parse_using_text parse_algorithm_text parse_lock_text bool_text_true
        del: parse_using.simps parse_algorithm.simps parse_lock.simps)
qed

lemma unsquashPK_squashPK:
  assumes "delimiter_free (pk_name pk) (pk_columns pk)"
  shows "unsquashPK (squashPK pk) = Inr pk"
proof -
  from assms have n: "CHR '';'' \<notin> set (pk_name pk)"
    and j: "CHR '';'' \<notin> set (js_join '','' (pk_columns pk))"
    and c: "js_split CHR '','' (js_join '','' (pk_columns pk)) = pk_columns pk"
    by (auto simp: delimiter_free_def js_join_no_sep js_split_join)
  from n j show ?thesis
    by (simp add: unsquashPK_def squashPK_def js_split_append_sep js_split_no_sep c)
qed

lemma unsquashUnique_squashUnique:
  assumes "delimiter_free (unq_name unq) (unq_columns unq)"
  shows "unsquashUnique (squashUnique unq) = Inr unq"
proof -
  from assms have n: "CHR '';'' \<notin> set (unq_name unq)"
    and j: "CHR '';'' \<notin> set (js_join '','' (unq_columns unq))"
    and c: "js_split CHR '','' (js_join '','' (unq_columns unq)) = unq_columns unq"
    by (auto simp: delimiter_free_def js_join_no_sep js_split_join)
  from n j show ?thesis
    by (simp add: unsquashUnique_def squashUnique_def js_split_append_sep js_split_no_sep c)
qed

lemma js_split_shape:
  "js_split sep s = takeWhile (\<lambda>c. c \<noteq> sep) s #
     (case dropWhile (\<lambda>c. c \<noteq> sep) s of [] \<Rightarrow> [] | _ # r \<Rightarrow> js_split sep r)"
  by (induction s) (auto split: list.splits)

lemma round_trip_fields:
  assumes "js_split CHR '';'' (n @ '';'' @ js_join '','' cols @ rest) = n' # cs' # others"
    and "js_split CHR '','' cs' = cols" and "n' = n"
    and rest: "rest = [] \<or> hd rest = CHR '';''"
  shows "delimiter_free n cols"
proof -
  have n: "CHR '';'' \<notin> set n"
    using assms(1,3) js_split_fields_no_sep [of n "CHR '';''" "n @ '';'' @ js_join '','' cols @ rest"]
    by simp
  then have "js_split CHR '';'' (js_join '','' cols @ rest) = cs' # others"
    using assms(1,3) by (simp add: js_split_append_sep)
  then have cs': "cs' = takeWhile (\<lambda>c. c \<noteq> CHR '';'') (js_join '','' cols @ rest)"
    using js_split_shape [of "CHR '';''" "js_join '','' cols @ rest"] by simp
  have ne: "cols \<noteq> []"
  proof
    assume "cols = []"
    with cs' rest have "cs' = []" by (cases rest) auto
    with assms(2) \<open>cols = []\<close> show False by simp
  qed
  have semi: "\<forall>c \<in> set cols. CHR '';'' \<notin> set c"
  proof
    fix c assume "c \<in> set cols"
    then have "c \<in> set (js_split CHR '','' cs')" using assms(2) by simp
    then have "set c \<subseteq> set cs'" by (rule js_split_fields_subset)
    moreover have "CHR '';'' \<notin> set cs'" unfolding cs' by (auto dest: set_takeWhileD)
    ultimately show "CHR '';'' \<notin> set c" by auto
  qed
  have comma: "\<forall>c \<in> set cols. CHR '','' \<notin> set c"
    using assms(2) js_split_fields_no_sep [of _ "CHR '',''" cs'] by auto
  from n ne semi comma show ?thesis by (simp add: delimiter_free_def)
qed

lemma unsquashPK_squashPK_iff:
  "unsquashPK (squashPK pk) = Inr pk \<longleftrightarrow> delimiter_free (pk_name pk) (pk_columns pk)"
proof
  assume rt: "unsquashPK (squashPK pk) = Inr pk"
  obtain n' r where p: "js_split CHR '';'' (squashPK pk) = n' # r"
    using js_split_not_Nil [of "CHR '';''" "squashPK pk"] by (cases "js_split CHR '';'' (squashPK pk)") auto
  with rt obtain cs' others where r: "r = cs' # others"
    by (cases r) (auto simp: unsquashPK_def)
  from rt p r have "pk = \<lparr>pk_name = n', pk_columns = js_split CHR '','' cs'\<rparr>"
    by (simp add: unsquashPK_def)
  then have e: "n' = pk_name pk" "js_split CHR '','' cs' = pk_columns pk"
    by (cases pk, simp)+
  show "delimiter_free (pk_name pk) (pk_columns pk)"
    using round_trip_fields [of "pk_name pk" "pk_columns pk" "[]" n' cs' others] p r e
    by (simp add: squashPK_def)
qed (rule unsquashPK_squashPK)


lemma unsquashUnique_squashUnique_iff:
  "unsquashUnique (squashUnique unq) = Inr unq \<longleftrightarrow> delimiter_free (unq_name unq) (unq_columns unq)"
proof
  assume rt: "unsquashUnique (squashUnique unq) = Inr unq"
  obtain n' r where p: "js_split CHR '';'' (squashUnique unq) = n' # r"
    using js_split_not_Nil [of "CHR '';''" "squashUnique unq"]
    by (cases "js_split CHR '';'' (squashUnique unq)") auto
  with rt obtain cs' others where r: "r = cs' # others"
    by (cases r) (auto simp: unsquashUnique_def)
  from rt p r have "unq = \<lparr>unq_name = n', unq_columns = js_split CHR '','' cs'\<rparr>"
    by (simp add: unsquashUnique_def)
  then have e: "n' = unq_name unq" "js_split CHR '','' cs' = unq_columns unq"
    by (cases unq, simp)+
  show "delimiter_free (unq_name unq) (unq_columns unq)"
    using round_trip_fields [of "unq_name unq" "unq_columns unq" "[]" n' cs' others] p r e
    by (simp add: squashUnique_def)
qed (rule unsquashUnique_squashUnique)

lemma unsquashIdx_Inr_fields:
  assumes "unsquashIdx s = Inr idx"
  shows "\<exists>cs others. js_split CHR '';'' s = idx_name idx # cs # others \<and>
           js_split CHR '','' cs = idx_columns idx"
proof -
  obtain n' r where p: "js_split CHR '';'' s = n' # r"
    using js_split_not_Nil [of "CHR '';''" s] by (cases "js_split CHR '';'' s") auto
  with assms obtain cs' others where r: "r = cs' # others"
    by (cases r) (auto simp: unsquashIdx_def)
  from assms p r have "idx_name idx = n' \<and> idx_columns idx = js_split CHR '','' cs'"
    by (auto simp: unsquashIdx_def Let_def split: sum.splits)
  with p r show ?thesis by simp
qed

lemma unsquashIdx_squashIdx_iff:
  "unsquashIdx (squashIdx idx) = Inr idx \<longleftrightarrow> delimiter_free (idx_name idx) (idx_columns idx)"
proof
  assume rt: "unsquashIdx (squashIdx idx) = Inr idx"
  then obtain cs others where
    f: "js_split CHR '';'' (squashIdx idx) = idx_name idx # cs # others"
       "js_split CHR '','' cs = idx_columns idx"
    using unsquashIdx_Inr_fields by blast
  show "delimiter_free (idx_name idx) (idx_columns idx)"
    by (rule round_trip_fields [where rest = "'';'' @ bool_text (idx_isUnique idx) @ '';'' @
          or_empty using_text (idx_using idx) @ '';'' @ or_empty algorithm_text (idx_algorithm idx) @
          '';'' @ or_empty lock_text (idx_lock idx)" and n' = "idx_name idx" and cs' = cs and others = others])
       (use f in \<open>simp_all add: squashIdx_def\<close>)
qed (rule unsquashIdx_squashIdx)



section \<open>The squasher and its inverse\<close>

text \<open>
  C1 (as amended). Unsquashing a squashed index, primary key or unique constraint gives the
  value back exactly when the value is free of the delimiters: its name has no \<^verbatim>\<open>;\<close>, it
  has at least one column, and no column contains \<^verbatim>\<open>;\<close> or \<^verbatim>\<open>,\<close>. For every other value
  the validators accept, the round trip throws or returns a different value.
\<close>

theorem squash_unsquash_inverse:
  "(unsquashIdx (squashIdx idx) = Inr idx \<longleftrightarrow> delimiter_free (idx_name idx) (idx_columns idx)) \<and>
   (unsquashPK (squashPK pk) = Inr pk \<longleftrightarrow> delimiter_free (pk_name pk) (pk_columns pk)) \<and>
   (unsquashUnique (squashUnique unq) = Inr unq \<longleftrightarrow>
      delimiter_free (unq_name unq) (unq_columns unq))"
  by (simp only: unsquashIdx_squashIdx_iff unsquashPK_squashPK_iff unsquashUnique_squashUnique_iff)

theorem squash_unsquash_inverse_witness:
  "unsquashIdx (squashIdx \<lparr>idx_name = ''users_email_idx'', idx_columns = [''email'', ''tenant_id''],
       idx_isUnique = True, idx_using = Some Btree, idx_algorithm = None, idx_lock = Some Lock_shared\<rparr>)
     = Inr \<lparr>idx_name = ''users_email_idx'', idx_columns = [''email'', ''tenant_id''],
       idx_isUnique = True, idx_using = Some Btree, idx_algorithm = None, idx_lock = Some Lock_shared\<rparr> \<and>
   unsquashPK (squashPK \<lparr>pk_name = ''orders_pk'', pk_columns = [''order_id'', ''line'']\<rparr>)
     = Inr \<lparr>pk_name = ''orders_pk'', pk_columns = [''order_id'', ''line'']\<rparr> \<and>
   unsquashUnique (squashUnique \<lparr>unq_name = ''users_email_unique'', unq_columns = [''email'']\<rparr>)
     = Inr \<lparr>unq_name = ''users_email_unique'', unq_columns = [''email'']\<rparr>"
  using squash_unsquash_inverse
    [of "\<lparr>idx_name = ''users_email_idx'', idx_columns = [''email'', ''tenant_id''],
          idx_isUnique = True, idx_using = Some Btree, idx_algorithm = None, idx_lock = Some Lock_shared\<rparr>"
        "\<lparr>pk_name = ''orders_pk'', pk_columns = [''order_id'', ''line'']\<rparr>"
        "\<lparr>unq_name = ''users_email_unique'', unq_columns = [''email'']\<rparr>"]
  by (simp add: delimiter_free_def)

text \<open>
  The claim as stated fails on values the validators accept: a primary key with no column
  comes back with the one column \<^verbatim>\<open>''\<close>, an index whose name contains \<^verbatim>\<open>;\<close> makes
  \<^verbatim>\<open>unsquashIdx\<close> throw, and a unique constraint with a column containing \<^verbatim>\<open>,\<close> comes back
  with two columns.
\<close>

theorem squash_unsquash_inverse_counterexample:
  "unsquashPK (squashPK \<lparr>pk_name = ''users_pk'', pk_columns = []\<rparr>)
     = Inr \<lparr>pk_name = ''users_pk'', pk_columns = [[]]\<rparr> \<and>
   unsquashPK (squashPK \<lparr>pk_name = ''users_pk'', pk_columns = []\<rparr>)
     \<noteq> Inr \<lparr>pk_name = ''users_pk'', pk_columns = []\<rparr> \<and>
   unsquashIdx (squashIdx \<lparr>idx_name = ''a;b'', idx_columns = [''c''], idx_isUnique = False,
       idx_using = None, idx_algorithm = None, idx_lock = None\<rparr>) = Inl ZodError \<and>
   unsquashUnique (squashUnique \<lparr>unq_name = ''u'', unq_columns = [''a,b'']\<rparr>)
     = Inr \<lparr>unq_name = ''u'', unq_columns = [''a'', ''b'']\<rparr>"
  by (simp add: unsquashPK_def squashPK_def unsquashIdx_def squashIdx_def unsquashUnique_def
      squashUnique_def bool_text_def or_empty_def js_index_nth)

lemma js_split_append: "js_split sep (a @ sep # b) = js_split sep a @ js_split sep b"
  by (induction a) (auto split: list.splits simp: js_split_not_Nil)

lemma length_js_split_pos: "1 \<le> length (js_split sep s)"
  using js_split_not_Nil [of sep s] by (cases "js_split sep s") auto

lemma squashIdx_split:
  "\<exists>pre. js_split CHR '';'' (squashIdx idx) =
     pre @ [or_empty using_text (idx_using idx), or_empty algorithm_text (idx_algorithm idx),
            or_empty lock_text (idx_lock idx)] \<and> 3 \<le> length pre"
proof -
  let ?pre = "js_split CHR '';'' (idx_name idx) @ js_split CHR '';'' (js_join '','' (idx_columns idx)) @
              js_split CHR '';'' (bool_text (idx_isUnique idx))"
  have "js_split CHR '';'' (squashIdx idx) =
     ?pre @ [or_empty using_text (idx_using idx), or_empty algorithm_text (idx_algorithm idx),
            or_empty lock_text (idx_lock idx)]"
    by (simp add: squashIdx_def js_split_append js_split_no_sep or_empty_using_no_semi
        or_empty_algorithm_no_semi or_empty_lock_no_semi)
  moreover have "3 \<le> length ?pre"
    using length_js_split_pos [of "CHR '';''" "idx_name idx"]
      length_js_split_pos [of "CHR '';''" "js_join '','' (idx_columns idx)"]
      length_js_split_pos [of "CHR '';''" "bool_text (idx_isUnique idx)"]
    by simp
  ultimately show ?thesis by blast
qed

lemma squashIdx_last_fields:
  fixes idx :: Index
  defines "fs \<equiv> js_split CHR '';'' (squashIdx idx)"
  shows "6 \<le> length fs"
    and "fs ! (length fs - 3) = or_empty using_text (idx_using idx)"
    and "fs ! (length fs - 2) = or_empty algorithm_text (idx_algorithm idx)"
    and "fs ! (length fs - 1) = or_empty lock_text (idx_lock idx)"
proof -
  obtain pre where p: "fs = pre @ [or_empty using_text (idx_using idx),
      or_empty algorithm_text (idx_algorithm idx), or_empty lock_text (idx_lock idx)]"
    and l: "3 \<le> length pre"
    unfolding fs_def using squashIdx_split by blast
  show "6 \<le> length fs" using p l by simp
  show "fs ! (length fs - 3) = or_empty using_text (idx_using idx)"
    by (simp add: p nth_append)
  show "fs ! (length fs - 2) = or_empty algorithm_text (idx_algorithm idx)"
    by (simp add: p nth_append)
  show "fs ! (length fs - 1) = or_empty lock_text (idx_lock idx)"
    by (simp add: p nth_append)
qed

lemma unsquashIdx_TypeError:
  "length (js_split CHR '';'' s) < 2 \<Longrightarrow> unsquashIdx s = Inl TypeError"
  by (simp add: unsquashIdx_def js_index_nth)




lemma unsquashIdx_fields:
  assumes "2 \<le> length (js_split CHR '';'' s)"
  shows "unsquashIdx s =
    (let parts = js_split CHR '';'' s in
     case (parse_using (js_index parts 3), parse_algorithm (js_index parts 4), parse_lock (js_index parts 5)) of
       (Inr u, Inr a, Inr l) \<Rightarrow>
          Inr \<lparr>idx_name = parts ! 0, idx_columns = js_split CHR '','' (parts ! 1),
               idx_isUnique = (js_index parts 2 = Some ''true''),
               idx_using = u, idx_algorithm = a, idx_lock = l\<rparr>
     | _ \<Rightarrow> Inl ZodError)"
proof -
  obtain n c rest where p: "js_split CHR '';'' s = n # c # rest"
    using assms by (cases "js_split CHR '';'' s"; cases "tl (js_split CHR '';'' s)") auto
  have i: "js_index (js_split CHR '';'' s) 0 = Some n" "js_index (js_split CHR '';'' s) 1 = Some c"
    "js_split CHR '';'' s ! 0 = n" "js_split CHR '';'' s ! 1 = c"
    by (simp_all add: p)
  show ?thesis
    unfolding unsquashIdx_def Let_def i
    by (simp split: sum.splits)
qed








text \<open>
  C3. \<^verbatim>\<open>squashIdx\<close> always produces at least six fields, the last three of which encode
  \<^verbatim>\<open>using\<close>, \<^verbatim>\<open>algorithm\<close> and \<^verbatim>\<open>lock\<close>; the field of an absent one is the empty string
  (so it is not the text \<^verbatim>\<open>undefined\<close> or \<^verbatim>\<open>null\<close>). \<^verbatim>\<open>unsquashIdx\<close> returns an absent
  field for each of the three fields that is empty, and does return when all three are. For
  an index free of delimiters the six fields are exactly the six encodings, and the index
  comes back.
\<close>

theorem absent_optional_fields:
  "(let fs = js_split CHR '';'' (squashIdx idx); n = length fs in
      6 \<le> n \<and>
      (idx_using idx = None \<longrightarrow> fs ! (n - 3) = []) \<and>
      (idx_algorithm idx = None \<longrightarrow> fs ! (n - 2) = []) \<and>
      (idx_lock idx = None \<longrightarrow> fs ! (n - 1) = [])) \<and>
   (let parts = js_split CHR '';'' s in
      (unsquashIdx s = Inr r \<longrightarrow>
         (js_index parts 3 = Some [] \<longrightarrow> idx_using r = None) \<and>
         (js_index parts 4 = Some [] \<longrightarrow> idx_algorithm r = None) \<and>
         (js_index parts 5 = Some [] \<longrightarrow> idx_lock r = None)) \<and>
      (2 \<le> length parts \<and> js_index parts 3 = Some [] \<and> js_index parts 4 = Some [] \<and>
       js_index parts 5 = Some [] \<longrightarrow>
         unsquashIdx s = Inr \<lparr>idx_name = parts ! 0, idx_columns = js_split CHR '','' (parts ! 1),
            idx_isUnique = (js_index parts 2 = Some ''true''),
            idx_using = None, idx_algorithm = None, idx_lock = None\<rparr>)) \<and>
   (delimiter_free (idx_name idx) (idx_columns idx) \<longrightarrow>
      js_split CHR '';'' (squashIdx idx) =
        [idx_name idx, js_join '','' (idx_columns idx), bool_text (idx_isUnique idx),
         or_empty using_text (idx_using idx), or_empty algorithm_text (idx_algorithm idx),
         or_empty lock_text (idx_lock idx)] \<and>
      unsquashIdx (squashIdx idx) = Inr idx)"
proof (intro conjI)
  show "let fs = js_split CHR '';'' (squashIdx idx); n = length fs in
      6 \<le> n \<and>
      (idx_using idx = None \<longrightarrow> fs ! (n - 3) = []) \<and>
      (idx_algorithm idx = None \<longrightarrow> fs ! (n - 2) = []) \<and>
      (idx_lock idx = None \<longrightarrow> fs ! (n - 1) = [])"
    using squashIdx_last_fields [of idx] by (simp add: Let_def or_empty_def)
next
  show "let parts = js_split CHR '';'' s in
      (unsquashIdx s = Inr r \<longrightarrow>
         (js_index parts 3 = Some [] \<longrightarrow> idx_using r = None) \<and>
         (js_index parts 4 = Some [] \<longrightarrow> idx_algorithm r = None) \<and>
         (js_index parts 5 = Some [] \<longrightarrow> idx_lock r = None)) \<and>
      (2 \<le> length parts \<and> js_index parts 3 = Some [] \<and> js_index parts 4 = Some [] \<and>
       js_index parts 5 = Some [] \<longrightarrow>
         unsquashIdx s = Inr \<lparr>idx_name = parts ! 0, idx_columns = js_split CHR '','' (parts ! 1),
            idx_isUnique = (js_index parts 2 = Some ''true''),
            idx_using = None, idx_algorithm = None, idx_lock = None\<rparr>)"
  proof (cases "2 \<le> length (js_split CHR '';'' s)")
    case True
    show ?thesis
      unfolding Let_def unsquashIdx_fields [OF True]
      by (auto split: sum.splits)
  next
    case False
    then have "unsquashIdx s = Inl TypeError" by (simp add: unsquashIdx_TypeError)
    with False show ?thesis by (simp add: Let_def)
  qed
next
  show "delimiter_free (idx_name idx) (idx_columns idx) \<longrightarrow>
      js_split CHR '';'' (squashIdx idx) =
        [idx_name idx, js_join '','' (idx_columns idx), bool_text (idx_isUnique idx),
         or_empty using_text (idx_using idx), or_empty algorithm_text (idx_algorithm idx),
         or_empty lock_text (idx_lock idx)] \<and>
      unsquashIdx (squashIdx idx) = Inr idx"
  proof
    assume d: "delimiter_free (idx_name idx) (idx_columns idx)"
    then have "CHR '';'' \<notin> set (idx_name idx)" "CHR '';'' \<notin> set (js_join '','' (idx_columns idx))"
      by (auto simp: delimiter_free_def js_join_no_sep)
    then have "js_split CHR '';'' (squashIdx idx) =
        [idx_name idx, js_join '','' (idx_columns idx), bool_text (idx_isUnique idx),
         or_empty using_text (idx_using idx), or_empty algorithm_text (idx_algorithm idx),
         or_empty lock_text (idx_lock idx)]"
      unfolding squashIdx_def by (rule squashIdx_fields)
    with d show "js_split CHR '';'' (squashIdx idx) =
        [idx_name idx, js_join '','' (idx_columns idx), bool_text (idx_isUnique idx),
         or_empty using_text (idx_using idx), or_empty algorithm_text (idx_algorithm idx),
         or_empty lock_text (idx_lock idx)] \<and>
      unsquashIdx (squashIdx idx) = Inr idx"
      by (simp add: unsquashIdx_squashIdx)
  qed
qed

theorem absent_optional_fields_witness:
  "js_split CHR '';'' (squashIdx \<lparr>idx_name = ''name_idx'', idx_columns = [''name''],
      idx_isUnique = False, idx_using = None, idx_algorithm = None, idx_lock = None\<rparr>)
     = [''name_idx'', ''name'', ''false'', [], [], []] \<and>
   unsquashIdx ''name_idx;name;false;;;'' = Inr \<lparr>idx_name = ''name_idx'', idx_columns = [''name''],
      idx_isUnique = False, idx_using = None, idx_algorithm = None, idx_lock = None\<rparr>"
  using absent_optional_fields [of "\<lparr>idx_name = ''name_idx'', idx_columns = [''name''],
      idx_isUnique = False, idx_using = None, idx_algorithm = None, idx_lock = None\<rparr>"
      "''name_idx;name;false;;;''"]
  by (simp add: Let_def delimiter_free_def bool_text_def or_empty_def js_index_nth)


section \<open>Squashing a snapshot\<close>

lemma js_set_fresh: "k \<notin> fst ` set obj \<Longrightarrow> js_set k v obj = obj @ [(k, v)]"
  by (induction obj) auto

lemma js_fromEntries_acc:
  "distinct (map fst (acc @ es)) \<Longrightarrow> foldl (\<lambda>obj (k, v). js_set k v obj) acc es = acc @ es"
proof (induction es arbitrary: acc)
  case Nil
  then show ?case by simp
next
  case (Cons e es)
  obtain k v where e: "e = (k, v)" by (cases e)
  from Cons.prems e have "k \<notin> fst ` set acc" by auto
  then have "js_set k v acc = acc @ [(k, v)]" by (rule js_set_fresh)
  moreover from Cons.prems e have "distinct (map fst ((acc @ [(k, v)]) @ es))" by simp
  ultimately show ?case using Cons.IH [of "acc @ [(k, v)]"] e by simp
qed

lemma js_fromEntries_distinct: "distinct (map fst es) \<Longrightarrow> js_fromEntries es = es"
  using js_fromEntries_acc [of "[]" es] by (simp add: js_fromEntries_def)

lemma js_keys_mapValues: "js_keys (mapValues obj f) = js_keys obj"
  by (induction obj) (auto simp: js_keys_def mapValues_def)

lemma js_get_mapValues: "js_get (mapValues obj f) k = map_option f (js_get obj k)"
  by (induction obj) (auto simp: js_get_def mapValues_def)

lemma squashed_tables_eq:
  assumes "distinct (js_keys (schema_tables json))"
  shows "squashed_tables (squashSingleStoreScheme json) =
     map (\<lambda>(k, t). (k, \<lparr>sq_name = tbl_name t, sq_columns = tbl_columns t,
     sq_indexes = mapValues (tbl_indexes t) squashIdx,
     sq_compositePrimaryKeys = mapValues (tbl_compositePrimaryKeys t) squashPK,
     sq_uniqueConstraints = mapValues (tbl_uniqueConstraints t) squashUnique\<rparr>)) (schema_tables json)"
proof -
  let ?f = "\<lambda>it. (fst it, \<lparr>sq_name = tbl_name (snd it), sq_columns = tbl_columns (snd it),
     sq_indexes = mapValues (tbl_indexes (snd it)) squashIdx,
     sq_compositePrimaryKeys = mapValues (tbl_compositePrimaryKeys (snd it)) squashPK,
     sq_uniqueConstraints = mapValues (tbl_uniqueConstraints (snd it)) squashUnique\<rparr>)"
  have "map fst (map ?f (schema_tables json)) = map fst (schema_tables json)"
    by (simp add: comp_def)
  with assms have "distinct (map fst (map ?f (schema_tables json)))" by (simp only: js_keys_def)
  then have "js_fromEntries (map ?f (schema_tables json)) = map ?f (schema_tables json)"
    by (rule js_fromEntries_distinct)
  then show ?thesis
    by (simp add: squashSingleStoreScheme_def Let_def js_entries_def case_prod_unfold)
qed

text \<open>
  C4. For a snapshot (an object has distinct keys), \<^verbatim>\<open>squashSingleStoreScheme\<close> keeps the
  table keys; under each key the squashed table has the name and the columns of the table,
  and its \<^verbatim>\<open>indexes\<close>, \<^verbatim>\<open>compositePrimaryKeys\<close> and \<^verbatim>\<open>uniqueConstraints\<close> have the keys of
  the table's, each holding the squashed string of the value it held. The result has version
  \<^verbatim>\<open>'1'\<close> and the dialect of the input.
\<close>

theorem squash_scheme_frame:
  assumes "distinct (js_keys (schema_tables json))"
  shows "js_keys (squashed_tables (squashSingleStoreScheme json)) = js_keys (schema_tables json) \<and>
    (\<forall>k t. js_get (schema_tables json) k = Some t \<longrightarrow>
       (\<exists>t'. js_get (squashed_tables (squashSingleStoreScheme json)) k = Some t' \<and>
          sq_name t' = tbl_name t \<and> sq_columns t' = tbl_columns t \<and>
          js_keys (sq_indexes t') = js_keys (tbl_indexes t) \<and>
          (\<forall>i. js_get (sq_indexes t') i = map_option squashIdx (js_get (tbl_indexes t) i)) \<and>
          js_keys (sq_compositePrimaryKeys t') = js_keys (tbl_compositePrimaryKeys t) \<and>
          (\<forall>i. js_get (sq_compositePrimaryKeys t') i =
                 map_option squashPK (js_get (tbl_compositePrimaryKeys t) i)) \<and>
          js_keys (sq_uniqueConstraints t') = js_keys (tbl_uniqueConstraints t) \<and>
          (\<forall>i. js_get (sq_uniqueConstraints t') i =
                 map_option squashUnique (js_get (tbl_uniqueConstraints t) i)))) \<and>
    squashed_version (squashSingleStoreScheme json) = ''1'' \<and>
    squashed_dialect (squashSingleStoreScheme json) = schema_dialect json"
proof (intro conjI allI impI)
  show "js_keys (squashed_tables (squashSingleStoreScheme json)) = js_keys (schema_tables json)"
    by (simp add: squashed_tables_eq [OF assms] js_keys_def case_prod_unfold)
next
  fix k t assume "js_get (schema_tables json) k = Some t"
  then have "js_get (squashed_tables (squashSingleStoreScheme json)) k =
     Some \<lparr>sq_name = tbl_name t, sq_columns = tbl_columns t,
     sq_indexes = mapValues (tbl_indexes t) squashIdx,
     sq_compositePrimaryKeys = mapValues (tbl_compositePrimaryKeys t) squashPK,
     sq_uniqueConstraints = mapValues (tbl_uniqueConstraints t) squashUnique\<rparr>"
    unfolding squashed_tables_eq [OF assms] js_get_def
    by (simp add: map_of_map)
  then show "\<exists>t'. js_get (squashed_tables (squashSingleStoreScheme json)) k = Some t' \<and>
          sq_name t' = tbl_name t \<and> sq_columns t' = tbl_columns t \<and>
          js_keys (sq_indexes t') = js_keys (tbl_indexes t) \<and>
          (\<forall>i. js_get (sq_indexes t') i = map_option squashIdx (js_get (tbl_indexes t) i)) \<and>
          js_keys (sq_compositePrimaryKeys t') = js_keys (tbl_compositePrimaryKeys t) \<and>
          (\<forall>i. js_get (sq_compositePrimaryKeys t') i =
                 map_option squashPK (js_get (tbl_compositePrimaryKeys t) i)) \<and>
          js_keys (sq_uniqueConstraints t') = js_keys (tbl_uniqueConstraints t) \<and>
          (\<forall>i. js_get (sq_uniqueConstraints t') i =
                 map_option squashUnique (js_get (tbl_uniqueConstraints t) i))"
    by (simp add: js_keys_mapValues js_get_mapValues)
next
  show "squashed_version (squashSingleStoreScheme json) = ''1''"
    by (simp add: squashSingleStoreScheme_def Let_def)
  show "squashed_dialect (squashSingleStoreScheme json) = schema_dialect json"
    by (simp add: squashSingleStoreScheme_def Let_def)
qed


theorem squash_scheme_frame_witness:
  "distinct (js_keys (schema_tables example_snapshot)) \<and>
   js_keys (squashed_tables (squashSingleStoreScheme example_snapshot)) = [''users''] \<and>
   js_get (squashed_tables (squashSingleStoreScheme example_snapshot)) ''users'' =
     Some \<lparr>sq_name = ''users'', sq_columns = tbl_columns example_users,
            sq_indexes = [(''name_idx'', ''name_idx;name;false;;;'')],
            sq_compositePrimaryKeys = [(''users_pk'', ''users_pk;id,name'')],
            sq_uniqueConstraints = [(''users_name_unique'', ''users_name_unique;name'')]\<rparr> \<and>
   squashed_version (squashSingleStoreScheme example_snapshot) = ''1'' \<and>
   squashed_dialect (squashSingleStoreScheme example_snapshot) = ''singlestore''"
proof -
  have d: "distinct (js_keys (schema_tables example_snapshot))"
    by (simp add: example_snapshot_def js_keys_def)
  have "js_get (squashed_tables (squashSingleStoreScheme example_snapshot)) ''users'' =
     Some \<lparr>sq_name = ''users'', sq_columns = tbl_columns example_users,
            sq_indexes = [(''name_idx'', ''name_idx;name;false;;;'')],
            sq_compositePrimaryKeys = [(''users_pk'', ''users_pk;id,name'')],
            sq_uniqueConstraints = [(''users_name_unique'', ''users_name_unique;name'')]\<rparr>"
    by (simp add: squashSingleStoreScheme_def example_snapshot_def example_users_def js_get_def
        js_entries_def js_fromEntries_def mapValues_def squashIdx_def squashPK_def squashUnique_def
        bool_text_def or_empty_def)
  with d squash_scheme_frame [OF d] show ?thesis
    by (simp add: example_snapshot_def js_keys_def)
qed


section \<open>Generating snapshots and migrations\<close>

lemma js_get_js_set: "js_get (js_set k v obj) k' = (if k' = k then Some v else js_get obj k')"
  by (induction obj) (auto simp: js_get_def)

text \<open>
  C6. Each of the four migration generators parses the previous and then the current
  snapshot before it squashes or diffs anything. When either parse throws, the generator
  throws that validation error, returns no statements, and leaves the world as it found it:
  the differ, which is the only part that acts on the world, has not been called.
\<close>

theorem validation_precedes_diffing:
  "((\<exists>e. parse prev = Inl e) \<or> (\<exists>e. parse cur = Inl e) \<longrightarrow>
      (\<exists>e. generateSingleStoreMigration parse applySingleStoreSnapshotsDiff prev cur w = (Inl e, w) \<and>
           (parse prev = Inl e \<or> parse cur = Inl e))) \<and>
   ((\<exists>e. parsePg prevPg = Inl e) \<or> (\<exists>e. parsePg curPg = Inl e) \<longrightarrow>
      (\<exists>e. generateMigration parsePg squashPgScheme applyPgSnapshotsDiff prevPg curPg w = (Inl e, w) \<and>
           (parsePg prevPg = Inl e \<or> parsePg curPg = Inl e))) \<and>
   ((\<exists>e. parseMy prevMy = Inl e) \<or> (\<exists>e. parseMy curMy = Inl e) \<longrightarrow>
      (\<exists>e. generateMySQLMigration parseMy squashMysqlScheme applyMysqlSnapshotsDiff prevMy curMy w
              = (Inl e, w) \<and>
           (parseMy prevMy = Inl e \<or> parseMy curMy = Inl e))) \<and>
   ((\<exists>e. parseLite prevLite = Inl e) \<or> (\<exists>e. parseLite curLite = Inl e) \<longrightarrow>
      (\<exists>e. generateSQLiteMigration parseLite squashSqliteScheme applySqliteSnapshotsDiff prevLite curLite w
              = (Inl e, w) \<and>
           (parseLite prevLite = Inl e \<or> parseLite curLite = Inl e)))"
  unfolding generateSingleStoreMigration_def generateMigration_def generateMySQLMigration_def
    generateSQLiteMigration_def
  by (auto split: sum.splits)


theorem validation_precedes_diffing_witness:
  "generateSingleStoreMigration example_parse example_differ JNull (JString ''users snapshot'') []
     = (Inl ZodError, []) \<and>
   generateMigration example_parse squashSingleStoreScheme example_differ
     (JString ''users snapshot'') (JObject []) [] = (Inl ZodError, []) \<and>
   generateMySQLMigration example_parse squashSingleStoreScheme example_differ
     (JObject []) (JObject []) [] = (Inl ZodError, []) \<and>
   generateSQLiteMigration example_parse squashSingleStoreScheme example_differ
     (JString ''users snapshot'') JNull [] = (Inl ZodError, [])"
  using validation_precedes_diffing
    [of example_parse JNull "JString ''users snapshot''" example_differ "[]"
        example_parse "JString ''users snapshot''" "JObject []" squashSingleStoreScheme example_differ
        example_parse "JObject []" "JObject []" squashSingleStoreScheme example_differ
        example_parse "JString ''users snapshot''" JNull squashSingleStoreScheme example_differ]
  by (auto simp: example_parse_def)

text \<open>
  C7. The snapshot a \<^verbatim>\<open>generate...DrizzleJson\<close> function returns has the \<^verbatim>\<open>prevId\<close> it was
  given, or \<^verbatim>\<open>originUUID\<close> when it was given none, and the fresh \<^verbatim>\<open>id\<close>; every other
  field is that of the serialized snapshot.
\<close>

theorem drizzle_json_prev_id:
  "(let r = generateSingleStoreDrizzleJson prepareFromExports generateSingleStoreSnapshot randomUUID
              originUUID imports prevId
    in (\<forall>p. prevId = Some p \<longrightarrow> schema_prevId r = p) \<and>
       (prevId = None \<longrightarrow> schema_prevId r = originUUID) \<and>
       schema_id r = randomUUID \<and>
       SingleStoreSchemaInternal.truncate r =
         generateSingleStoreSnapshot (prepared_tables (prepareFromExports imports))) \<and>
   (let snapshot = generateMySqlSnapshot (prepared_tables (prepareMy importsMy));
        r = generateMySQLDrizzleJson prepareMy generateMySqlSnapshot randomUUID originUUID importsMy prevId
    in (\<forall>p. prevId = Some p \<longrightarrow> js_get r ''prevId'' = Some (JString p)) \<and>
       (prevId = None \<longrightarrow> js_get r ''prevId'' = Some (JString originUUID)) \<and>
       js_get r ''id'' = Some (JString randomUUID) \<and>
       (\<forall>k. k \<noteq> ''id'' \<and> k \<noteq> ''prevId'' \<longrightarrow> js_get r k = js_get snapshot k)) \<and>
   (let snapshot = generateSqliteSnapshot (prepared_tables (prepareLite importsLite));
        r = generateSQLiteDrizzleJson prepareLite generateSqliteSnapshot randomUUID originUUID
              importsLite prevId
    in (\<forall>p. prevId = Some p \<longrightarrow> js_get r ''prevId'' = Some (JString p)) \<and>
       (prevId = None \<longrightarrow> js_get r ''prevId'' = Some (JString originUUID)) \<and>
       js_get r ''id'' = Some (JString randomUUID) \<and>
       (\<forall>k. k \<noteq> ''id'' \<and> k \<noteq> ''prevId'' \<longrightarrow> js_get r k = js_get snapshot k)) \<and>
   (let prepared = preparePg importsPg;
        snapshot = generatePgSnapshot (prepared_tables prepared) (prepared_enums prepared)
                     (prepared_schemas prepared) (prepared_sequences prepared) schemaFilters;
        r = generateDrizzleJson preparePg generatePgSnapshot randomUUID originUUID importsPg prevId
              schemaFilters
    in (\<forall>p. prevId = Some p \<longrightarrow> js_get r ''prevId'' = Some (JString p)) \<and>
       (prevId = None \<longrightarrow> js_get r ''prevId'' = Some (JString originUUID)) \<and>
       js_get r ''id'' = Some (JString randomUUID) \<and>
       (\<forall>k. k \<noteq> ''id'' \<and> k \<noteq> ''prevId'' \<longrightarrow> js_get r k = js_get snapshot k))"
  by (simp add: Let_def generateSingleStoreDrizzleJson_def generateMySQLDrizzleJson_def
      generateSQLiteDrizzleJson_def generateDrizzleJson_def fillPgSnapshot_def nullish_or_def
      js_get_js_set js_entries_def SingleStoreSchemaInternal.truncate_def)


theorem drizzle_json_prev_id_witness:
  "schema_prevId (generateSingleStoreDrizzleJson example_prepare example_serialize ''id-2''
      ''00000000-0000-0000-0000-000000000000'' [''users''] (Some ''id-1'')) = ''id-1'' \<and>
   schema_prevId (generateSingleStoreDrizzleJson example_prepare example_serialize ''id-2''
      ''00000000-0000-0000-0000-000000000000'' [''users''] None)
     = ''00000000-0000-0000-0000-000000000000'' \<and>
   js_get (generateMySQLDrizzleJson example_prepare example_serialize_object ''id-2''
      ''00000000-0000-0000-0000-000000000000'' [''users''] (Some ''id-1'')) ''prevId''
     = Some (JString ''id-1'') \<and>
   js_get (generateSQLiteDrizzleJson example_prepare example_serialize_object ''id-2''
      ''00000000-0000-0000-0000-000000000000'' [''users''] None) ''prevId''
     = Some (JString ''00000000-0000-0000-0000-000000000000'') \<and>
   js_get (generateDrizzleJson example_prepare example_serialize_pg ''id-2''
      ''00000000-0000-0000-0000-000000000000'' [''users''] None None) ''prevId''
     = Some (JString ''00000000-0000-0000-0000-000000000000'') \<and>
   js_get (generateDrizzleJson example_prepare example_serialize_pg ''id-2''
      ''00000000-0000-0000-0000-000000000000'' [''users''] None None) ''dialect''
     = Some (JString ''postgresql'')"
  using drizzle_json_prev_id
    [of example_prepare example_serialize "''id-2''" "''00000000-0000-0000-0000-000000000000''"
        "[''users'']" "Some ''id-1''" example_serialize_object example_prepare "[''users'']"
        example_serialize_object example_prepare "[''users'']" example_prepare "[''users'']"
        example_serialize_pg None]
    drizzle_json_prev_id
    [of example_prepare example_serialize "''id-2''" "''00000000-0000-0000-0000-000000000000''"
        "[''users'']" None example_serialize_object example_prepare "[''users'']"
        example_serialize_object example_prepare "[''users'']" example_prepare "[''users'']"
        example_serialize_pg None]
  by (simp add: Let_def example_prepare_def example_serialize_pg_def js_get_def)

text \<open>
  C9. \<^verbatim>\<open>upPgSnapshot\<close> dispatches on the version of the snapshot: \<^verbatim>\<open>'5'\<close> goes through the
  v6 step and then the v7 step, \<^verbatim>\<open>'6'\<close> through the v7 step only, and a snapshot with any
  other version (or none) is returned as it is.
\<close>

theorem upPgSnapshot_dispatch:
  "(js_prop snapshot ''version'' = JString ''5'' \<longrightarrow>
      upPgSnapshot upPgV6 upPgV7 snapshot = upPgV7 (upPgV6 snapshot)) \<and>
   (js_prop snapshot ''version'' = JString ''6'' \<longrightarrow>
      upPgSnapshot upPgV6 upPgV7 snapshot = upPgV7 snapshot) \<and>
   (js_prop snapshot ''version'' \<noteq> JString ''5'' \<and> js_prop snapshot ''version'' \<noteq> JString ''6'' \<longrightarrow>
      upPgSnapshot upPgV6 upPgV7 snapshot = snapshot)"
  by (simp add: upPgSnapshot_def)


theorem upPgSnapshot_dispatch_witness:
  "upPgSnapshot example_upV6 example_upV7 [(''version'', JString ''5''), (''tables'', JObject [])]
     = [(''version'', JString ''7''), (''tables'', JObject []), (''sequences'', JObject [])] \<and>
   upPgSnapshot example_upV6 example_upV7 [(''version'', JString ''6''), (''tables'', JObject [])]
     = [(''version'', JString ''7''), (''tables'', JObject []), (''sequences'', JObject [])] \<and>
   upPgSnapshot example_upV6 example_upV7 [(''version'', JString ''7''), (''tables'', JObject [])]
     = [(''version'', JString ''7''), (''tables'', JObject [])] \<and>
   upPgSnapshot example_upV6 example_upV7 [(''version'', JNumber 5), (''tables'', JObject [])]
     = [(''version'', JNumber 5), (''tables'', JObject [])]"
  using upPgSnapshot_dispatch
      [of "[(''version'', JString ''5''), (''tables'', JObject [])]" example_upV6 example_upV7]
    upPgSnapshot_dispatch
      [of "[(''version'', JString ''6''), (''tables'', JObject [])]" example_upV6 example_upV7]
    upPgSnapshot_dispatch
      [of "[(''version'', JString ''7''), (''tables'', JObject [])]" example_upV6 example_upV7]
    upPgSnapshot_dispatch
      [of "[(''version'', JNumber 5), (''tables'', JObject [])]" example_upV6 example_upV7]
  by (simp add: js_prop_def js_get_def example_upV6_def example_upV7_def)


section \<open>Pushing\<close>

subsection \<open>The loop over the statements\<close>

lemma queries_append: "queries (a @ b) = queries a @ queries b"
  by (induction a rule: queries.induct) auto

lemma prompts_append: "prompts (a @ b) = prompts a @ prompts b"
  by (induction a rule: prompts.induct) auto

lemma queries_map_Query: "queries (map Query ss) = ss"
  by (induction ss) auto

lemma prompts_map_Query: "prompts (map Query ss) = []"
  by (induction ss) auto

lemma prefix_sent_until_rejected: "prefix (sent_until_rejected q c ss) ss"
  by (induction ss arbitrary: c) (auto split: reply.splits)

lemma all_resolved_sent: "all_resolved q c ss \<Longrightarrow> sent_until_rejected q c ss = ss"
  by (induction ss arbitrary: c) (auto split: reply.splits)

lemma never_rejects_all_resolved: "\<forall>s c. \<exists>c'. q s c = Resolved c' \<Longrightarrow> all_resolved q c ss"
proof (induction ss arbitrary: c)
  case Nil
  then show ?case by simp
next
  case (Cons s ss)
  from Cons.prems obtain c' where "q s c = Resolved c'" by blast
  with Cons show ?case by simp
qed

lemma for_each_query_Nil: "for_each_query q [] w = w"
  by (simp add: for_each_query_def)

lemma for_each_query_Cons: "for_each_query q (s # ss) w = for_each_query q ss (db_query q s w)"
  by (simp add: for_each_query_def)

lemma for_each_query_append:
  "for_each_query q (ss @ ts) w = for_each_query q ts (for_each_query q ss w)"
  by (simp add: for_each_query_def)

lemma db_query_stopped: "status w \<noteq> Running \<Longrightarrow> db_query q s w = w"
  by (simp add: db_query_def)

lemma for_each_query_stopped: "status w \<noteq> Running \<Longrightarrow> for_each_query q ss w = w"
  by (induction ss) (simp_all add: for_each_query_Nil for_each_query_Cons db_query_stopped)

lemma sent_in_turn_Cons: "sent_in_turn q c (s # ss) = sent_in_turn q (reply_conn (q s c)) ss"
  by (simp add: sent_in_turn_def)

lemma for_each_query_running:
  "status w = Running \<Longrightarrow>
     for_each_query q ss w =
       w\<lparr>conn := sent_in_turn q (conn w) (sent_until_rejected q (conn w) ss),
         trace := trace w @ map Query (sent_until_rejected q (conn w) ss),
         status := (if all_resolved q (conn w) ss then Running else Thrown QueryError)\<rparr>"
proof (induction ss arbitrary: w)
  case Nil
  then show ?case by (simp add: for_each_query_Nil sent_in_turn_def)
next
  case (Cons s ss)
  show ?case
  proof (cases "q s (conn w)")
    case (Resolved c')
    let ?w = "db_query q s w"
    have w: "?w = w\<lparr>conn := c', trace := trace w @ [Query s]\<rparr>"
      using Cons.prems Resolved by (simp add: db_query_def)
    then have "status ?w = Running" using Cons.prems by simp
    from Cons.IH [OF this] show ?thesis
      by (simp add: for_each_query_Cons w Resolved sent_in_turn_Cons)
  next
    case (Rejected c')
    let ?w = "db_query q s w"
    have w: "?w = w\<lparr>conn := c', trace := trace w @ [Query s], status := Thrown QueryError\<rparr>"
      using Cons.prems Rejected by (simp add: db_query_def)
    then have "status ?w \<noteq> Running" by simp
    then have "for_each_query q ss ?w = ?w" by (rule for_each_query_stopped)
    then show ?thesis
      by (simp add: for_each_query_Cons w Rejected sent_in_turn_def)
  qed
qed

subsection \<open>The prompts\<close>

lemma emit_running: "status w = Running \<Longrightarrow> emit e w = w\<lparr>trace := trace w @ [e]\<rparr>"
  by (simp add: emit_def)

lemma emit_stopped: "status w \<noteq> Running \<Longrightarrow> emit e w = w"
  by (simp add: emit_def)

lemma emits_running: "status w = Running \<Longrightarrow> emits es w = w\<lparr>trace := trace w @ es\<rparr>"
  by (induction es arbitrary: w) (simp_all add: emits_def emit_def)

lemma verbose_log_running:
  "status w = Running \<Longrightarrow>
     verbose_log ss w = w\<lparr>trace := trace w @ [Log [], Log ''You are about to execute current statements:'',
        Log [], Log (js_join [CHR 0x0A] ss), Log []]\<rparr>"
  by (simp add: verbose_log_def emits_running)

lemma select_or_abort_running:
  "status w = Running \<Longrightarrow>
     select_or_abort select p w =
       (if select p = Some 0
        then w\<lparr>trace := trace w @ [Select p, Render All_changes_were_aborted], status := Exited 0\<rparr>
        else w\<lparr>trace := trace w @ [Select p]\<rparr>)"
  by (simp add: select_or_abort_def emit_def process_exit_def Let_def)

lemma strict_prompt_running:
  "status w = Running \<Longrightarrow>
     strict_prompt select force strict sg w =
       (if \<not> force \<and> strict \<and> \<not> shouldAskForApprove sg
        then (if select Execute_all_statements = Some 0
              then w\<lparr>trace := trace w @ [Select Execute_all_statements, Render All_changes_were_aborted],
                     status := Exited 0\<rparr>
              else w\<lparr>trace := trace w @ [Select Execute_all_statements]\<rparr>)
        else w)"
  by (simp add: strict_prompt_def select_or_abort_running)

lemma data_loss_prompt_stopped: "status w \<noteq> Running \<Longrightarrow> data_loss_prompt select force sg w = w"
  by (simp add: data_loss_prompt_def select_or_abort_def emits_def emit_def process_exit_def Let_def)

lemma data_loss_prompt_running:
  "status w = Running \<Longrightarrow>
     data_loss_prompt select force sg w =
       (if \<not> force \<and> shouldAskForApprove sg
        then (let p = Data_loss (length (tablesToRemove sg)) (length (columnsToRemove sg))
                        (length (tablesToTruncate sg));
                  logs = [Log ''Found data-loss statements:'', Log (js_join [CHR 0x0A] (infoToPrint sg)),
                          Log [], Log (''THIS ACTION WILL CAUSE DATA LOSS AND CANNOT BE REVERTED'' @ [CHR 0x0A]),
                          Log ''Do you still want to push changes?'']
              in if select p = Some 0
                 then w\<lparr>trace := trace w @ logs @ [Select p, Render All_changes_were_aborted],
                        status := Exited 0\<rparr>
                 else w\<lparr>trace := trace w @ logs @ [Select p]\<rparr>)
        else w)"
  by (simp add: data_loss_prompt_def select_or_abort_running emits_running Let_def)

text \<open>The world when the statement loops start.\<close>

lemma before_the_loops:
  fixes w :: "'c world" and select force strict sg verbose ss
  assumes "status w = Running"
  defines "w3 \<equiv> data_loss_prompt select force sg
                   (strict_prompt select force strict sg (if verbose then verbose_log ss w else w))"
  shows "conn w3 = conn w"
    and "queries (trace w3) = queries (trace w)"
    and "status w3 = Running \<or> status w3 = Exited 0"
    and "force \<Longrightarrow> prompts (trace w3) = prompts (trace w)"
    and "(\<forall>p. select p \<noteq> Some 0) \<Longrightarrow> status w3 = Running"
    and "\<not> force \<Longrightarrow> shouldAskForApprove sg \<Longrightarrow>
           \<exists>pre. queries pre = [] \<and>
             trace w3 = trace w @ pre @
               [Select (Data_loss (length (tablesToRemove sg)) (length (columnsToRemove sg))
                          (length (tablesToTruncate sg)))] @
               (if select (Data_loss (length (tablesToRemove sg)) (length (columnsToRemove sg))
                          (length (tablesToTruncate sg))) = Some 0
                then [Render All_changes_were_aborted] else [])"
    and "\<not> force \<Longrightarrow> shouldAskForApprove sg \<Longrightarrow>
           select (Data_loss (length (tablesToRemove sg)) (length (columnsToRemove sg))
                          (length (tablesToTruncate sg))) = Some 0 \<Longrightarrow> status w3 = Exited 0"
proof -
  let ?w1 = "if verbose then verbose_log ss w else w"
  have r1: "status ?w1 = Running" using assms(1) by (simp add: verbose_log_running)
  have c1: "conn ?w1 = conn w" using assms(1) by (simp add: verbose_log_running)
  have t1: "\<exists>l. trace ?w1 = trace w @ l \<and> queries l = [] \<and> prompts l = []"
    using assms(1) by (cases verbose) (simp_all add: verbose_log_running)
  then obtain l where l: "trace ?w1 = trace w @ l" "queries l = []" "prompts l = []" by blast
  let ?w2 = "strict_prompt select force strict sg ?w1"
  note s2 = strict_prompt_running [OF r1, of select force strict sg]
  show "conn w3 = conn w"
    unfolding w3_def using c1 s2
    by (cases "status ?w2 = Running")
       (auto simp: data_loss_prompt_running data_loss_prompt_stopped Let_def split: if_splits)
  show "queries (trace w3) = queries (trace w)"
    unfolding w3_def using l s2
    by (cases "status ?w2 = Running")
       (auto simp: data_loss_prompt_running data_loss_prompt_stopped Let_def queries_append
             split: if_splits)
  show "status w3 = Running \<or> status w3 = Exited 0"
    unfolding w3_def using r1 s2
    by (cases "status ?w2 = Running")
       (auto simp: data_loss_prompt_running data_loss_prompt_stopped Let_def split: if_splits)
  show "prompts (trace w3) = prompts (trace w)" if force
    unfolding w3_def using that l r1 s2
    by (simp add: data_loss_prompt_running prompts_append)
  show "status w3 = Running" if "\<forall>p. select p \<noteq> Some 0"
    unfolding w3_def using that r1 s2
    by (simp add: data_loss_prompt_running Let_def)
  show "\<exists>pre. queries pre = [] \<and>
             trace w3 = trace w @ pre @
               [Select (Data_loss (length (tablesToRemove sg)) (length (columnsToRemove sg))
                          (length (tablesToTruncate sg)))] @
               (if select (Data_loss (length (tablesToRemove sg)) (length (columnsToRemove sg))
                          (length (tablesToTruncate sg))) = Some 0
                then [Render All_changes_were_aborted] else [])"
    if "\<not> force" "shouldAskForApprove sg"
  proof -
    from that s2 have e: "?w2 = ?w1" by simp
    show ?thesis
      unfolding w3_def e using that l r1
      by (auto simp: data_loss_prompt_running Let_def queries_append
          intro!: exI [of _ "l @ [Log ''Found data-loss statements:'',
             Log (js_join [CHR 0x0A] (infoToPrint sg)), Log [],
             Log (''THIS ACTION WILL CAUSE DATA LOSS AND CANNOT BE REVERTED'' @ [CHR 0x0A]),
             Log ''Do you still want to push changes?'']"])
  qed
  show "status w3 = Exited 0"
    if "\<not> force" "shouldAskForApprove sg"
       "select (Data_loss (length (tablesToRemove sg)) (length (columnsToRemove sg))
                          (length (tablesToTruncate sg))) = Some 0"
  proof -
    from that s2 have e: "?w2 = ?w1" by simp
    show ?thesis
      unfolding w3_def e using that r1 by (simp add: data_loss_prompt_running Let_def)
  qed
qed

text \<open>The loops, the final message and the enclosing \<^verbatim>\<open>catch\<close>.\<close>

lemma catch_log_cases:
  "catch_log w = (case status w of Thrown e \<Rightarrow> w\<lparr>trace := trace w @ [Log_error e], status := Running\<rparr>
                  | _ \<Rightarrow> w)"
  by (simp add: catch_log_def)

lemma the_loops:
  fixes w3 :: "'c world" and q m ss
  assumes "status w3 = Running \<or> status w3 = Exited n"
  defines "w' \<equiv> catch_log (emit (Render m) (for_each_query q ss w3))"
  shows "\<exists>sent. prefix sent ss \<and> queries (trace w') = queries (trace w3) @ sent \<and>
           conn w' = sent_in_turn q (conn w3) sent \<and>
           prompts (trace w') = prompts (trace w3) \<and>
           prefix (trace w3) (trace w') \<and>
           (status w3 = Exited n \<longrightarrow> w' = w3 \<and> sent = []) \<and>
           (status w3 = Running \<longrightarrow> sent = sent_until_rejected q (conn w3) ss)"
proof (cases "status w3 = Running")
  case True
  note f = for_each_query_running [OF True, of q ss]
  show ?thesis
    unfolding w'_def f
    by (rule exI [of _ "sent_until_rejected q (conn w3) ss"])
       (simp add: True prefix_sent_until_rejected emit_def catch_log_def queries_append
          queries_map_Query prompts_append prompts_map_Query)
next
  case False
  with assms(1) have e: "status w3 = Exited n" by simp
  then have "w' = w3"
    unfolding w'_def by (simp add: for_each_query_stopped emit_stopped catch_log_def)
  with e show ?thesis
    by (intro exI [of _ "[]"]) (simp add: sent_in_turn_def)
qed

lemma push_shape:
  fixes w :: "'c world" and q select sg strict verbose force m ss ss'
  assumes run: "status w = Running"
  defines "p \<equiv> Data_loss (length (tablesToRemove sg)) (length (columnsToRemove sg))
                  (length (tablesToTruncate sg))"
  defines "w' \<equiv> catch_log (emit (Render m) (for_each_query q ss
                   (data_loss_prompt select force sg
                      (strict_prompt select force strict sg
                         (if verbose then verbose_log ss' w else w)))))"
  shows "\<exists>sent. prefix sent ss \<and> queries (trace w') = queries (trace w) @ sent \<and>
           conn w' = sent_in_turn q (conn w) sent"
    and "force \<Longrightarrow> prompts (trace w') = prompts (trace w)"
    and "\<not> force \<Longrightarrow> shouldAskForApprove sg \<Longrightarrow>
           \<exists>pre post. trace w' = trace w @ pre @ Select p # post \<and> queries pre = []"
    and "\<not> force \<Longrightarrow> shouldAskForApprove sg \<Longrightarrow> select p = Some 0 \<Longrightarrow>
           queries (trace w') = queries (trace w) \<and> status w' = Exited 0"
    and "\<forall>p. select p \<noteq> Some 0 \<Longrightarrow> \<forall>s c. \<exists>c'. q s c = Resolved c' \<Longrightarrow>
           queries (trace w') = queries (trace w) @ ss"
proof -
  define w3 where "w3 = data_loss_prompt select force sg
                      (strict_prompt select force strict sg
                         (if verbose then verbose_log ss' w else w))"
  note b = before_the_loops [OF run, where select = select and force = force and strict = strict
      and sg = sg and verbose = verbose and ss = ss', folded w3_def]
  have w': "w' = catch_log (emit (Render m) (for_each_query q ss w3))"
    by (simp add: w'_def w3_def)
  from the_loops [OF b(3), where m = m and q = q and ss = ss, folded w']
  obtain sent where s: "prefix sent ss" "queries (trace w') = queries (trace w3) @ sent"
    "conn w' = sent_in_turn q (conn w3) sent" "prompts (trace w') = prompts (trace w3)"
    "prefix (trace w3) (trace w')" "status w3 = Exited 0 \<longrightarrow> w' = w3 \<and> sent = []"
    "status w3 = Running \<longrightarrow> sent = sent_until_rejected q (conn w3) ss"
    by blast
  from s(1-3) b(1,2)
  show "\<exists>sent. prefix sent ss \<and> queries (trace w') = queries (trace w) @ sent \<and>
           conn w' = sent_in_turn q (conn w) sent"
    by auto
  show "prompts (trace w') = prompts (trace w)" if force
    using b(4) [OF that] s(4) by simp
  show "\<exists>pre post. trace w' = trace w @ pre @ Select p # post \<and> queries pre = []"
    if "\<not> force" "shouldAskForApprove sg"
  proof -
    from b(6) [OF that] obtain pre tl where
      pre: "queries pre = []" "trace w3 = trace w @ pre @ [Select p] @ tl"
      unfolding p_def by blast
    from s(5) obtain post where "trace w' = trace w3 @ post" by (auto simp: prefix_def)
    with pre have "trace w' = trace w @ pre @ Select p # (tl @ post)" by simp
    with pre(1) show ?thesis by blast
  qed
  show "queries (trace w') = queries (trace w) \<and> status w' = Exited 0"
    if "\<not> force" "shouldAskForApprove sg" "select p = Some 0"
  proof -
    from b(7) [OF that(1,2)] that(3) have "status w3 = Exited 0" by (simp add: p_def)
    with s(6) b(2) show ?thesis by simp
  qed
  show "queries (trace w') = queries (trace w) @ ss"
    if "\<forall>p. select p \<noteq> Some 0" "\<forall>s c. \<exists>c'. q s c = Resolved c'"
  proof -
    from b(5) [OF that(1)] have "status w3 = Running" .
    with s(7) have "sent = sent_until_rejected q (conn w3) ss" by simp
    also have "\<dots> = ss"
      using that(2) by (simp add: never_rejects_all_resolved all_resolved_sent)
    finally show ?thesis using s(2) b(2) by simp
  qed
qed



lemma singlestorePush_shape:
  "singlestorePush q select filteredStatements sg filteredSqlStatements strict verbose force w =
     (if filteredStatements = [] then catch_log (emit (Render No_changes_detected) w)
      else catch_log (emit (Render Changes_applied)
             (for_each_query q
                (unique_statements (statementsToExecute sg) @ unique_statements filteredSqlStatements)
                (data_loss_prompt select force sg
                   (strict_prompt select force strict sg
                      (if verbose
                       then verbose_log (unique_statements (statementsToExecute sg) @
                                         unique_statements filteredSqlStatements) w
                       else w))))))"
  by (simp add: singlestorePush_def Let_def for_each_query_append)

lemma mysqlPush_shape:
  "mysqlPush q select filteredStatements sg filteredSqlStatements strict verbose force w =
     (if filteredStatements = [] then catch_log (emit (Render No_changes_detected) w)
      else catch_log (emit (Render Changes_applied)
             (for_each_query q
                (unique_statements (statementsToExecute sg) @ unique_statements filteredSqlStatements)
                (data_loss_prompt select force sg
                   (strict_prompt select force strict sg
                      (if verbose
                       then verbose_log (unique_statements (statementsToExecute sg) @
                                         unique_statements filteredSqlStatements) w
                       else w))))))"
  by (simp add: mysqlPush_def Let_def for_each_query_append)




subsection \<open>Deduplication\<close>

lemma unique_statements_snoc:
  "unique_statements (xs @ [x]) = push_if_new (unique_statements xs) x"
  by (simp add: unique_statements_def)

lemma unique_statements_Nil: "unique_statements [] = []"
  by (simp add: unique_statements_def)

lemma set_unique_statements: "set (unique_statements xs) = set xs"
  by (induction xs rule: rev_induct)
     (auto simp: unique_statements_Nil unique_statements_snoc push_if_new_def)

lemma distinct_unique_statements: "distinct (unique_statements xs)"
  by (induction xs rule: rev_induct)
     (auto simp: unique_statements_Nil unique_statements_snoc push_if_new_def)

lemma first_occurrences_snoc:
  "first_occurrences (xs @ [x]) = first_occurrences xs @ (if x \<in> set xs then [] else [x])"
proof -
  have "filter (\<lambda>i. (xs @ [x]) ! i \<notin> set (take i (xs @ [x]))) [0..<length xs] =
        filter (\<lambda>i. xs ! i \<notin> set (take i xs)) [0..<length xs]"
    by (rule filter_cong) (auto simp: nth_append)
  moreover have "map (\<lambda>i. (xs @ [x]) ! i) (filter (\<lambda>i. xs ! i \<notin> set (take i xs)) [0..<length xs]) =
        map (\<lambda>i. xs ! i) (filter (\<lambda>i. xs ! i \<notin> set (take i xs)) [0..<length xs])"
    by (rule map_cong) (auto simp: nth_append)
  ultimately show ?thesis
    by (simp add: first_occurrences_def)
qed

lemma unique_statements_first_occurrences: "unique_statements xs = first_occurrences xs"
proof (induction xs rule: rev_induct)
  case Nil
  show ?case by (simp add: unique_statements_Nil first_occurrences_def)
next
  case (snoc x xs)
  have "set (first_occurrences xs) = set xs"
    using snoc set_unique_statements [of xs] by simp
  with snoc show ?case
    by (simp add: unique_statements_snoc first_occurrences_snoc push_if_new_def)
qed



subsection \<open>The SQLite transaction\<close>





subsection \<open>Approval, order and deduplication\<close>










text \<open>
  C10. The list \<^verbatim>\<open>singlestorePush\<close> and \<^verbatim>\<open>mysqlPush\<close> build from a statement list holds
  the elements at the positions of first occurrence, in the order of the list: every string
  of the list once. When nothing aborts the run and the driver rejects nothing, the
  statements sent are the deduplicated \<^verbatim>\<open>statementsToExecute\<close> followed by the
  deduplicated rendered statements.
\<close>

theorem executed_lists_deduplicated:
  "unique_statements xs = first_occurrences xs \<and>
   distinct (unique_statements xs) \<and>
   set (unique_statements xs) = set xs \<and>
   (status w = Running \<and> filteredStatements \<noteq> [] \<and> (\<forall>p. select p \<noteq> Some 0) \<and>
    (\<forall>s c. \<exists>c'. q s c = Resolved c') \<longrightarrow>
      queries (trace (singlestorePush q select filteredStatements sg filteredSqlStatements
                        strict verbose force w))
        = queries (trace w) @ unique_statements (statementsToExecute sg) @
            unique_statements filteredSqlStatements \<and>
      queries (trace (mysqlPush q select filteredStatements sg filteredSqlStatements
                        strict verbose force w))
        = queries (trace w) @ unique_statements (statementsToExecute sg) @
            unique_statements filteredSqlStatements)"
proof (intro conjI impI)
  assume a: "status w = Running \<and> filteredStatements \<noteq> [] \<and> (\<forall>p. select p \<noteq> Some 0) \<and>
    (\<forall>s c. \<exists>c'. q s c = Resolved c')"
  then have r: "status w = Running" and n: "\<forall>p. select p \<noteq> Some 0"
    and k: "\<forall>s c. \<exists>c'. q s c = Resolved c'" by simp_all
  note s = push_shape(5) [OF r n k, where force = force and sg = sg
      and strict = strict and verbose = verbose and m = Changes_applied
      and ss = "unique_statements (statementsToExecute sg) @ unique_statements filteredSqlStatements"
      and ss' = "unique_statements (statementsToExecute sg) @ unique_statements filteredSqlStatements"]
  from a s show "queries (trace (singlestorePush q select filteredStatements sg filteredSqlStatements
                        strict verbose force w))
        = queries (trace w) @ unique_statements (statementsToExecute sg) @
            unique_statements filteredSqlStatements"
    by (simp add: singlestorePush_shape)
  from a s show "queries (trace (mysqlPush q select filteredStatements sg filteredSqlStatements
                        strict verbose force w))
        = queries (trace w) @ unique_statements (statementsToExecute sg) @
            unique_statements filteredSqlStatements"
    by (simp add: mysqlPush_shape)
qed (rule unique_statements_first_occurrences distinct_unique_statements set_unique_statements)+

theorem executed_lists_deduplicated_witness:
  "unique_statements [''ALTER TABLE users DROP COLUMN age;'', ''DROP TABLE sessions;'',
                      ''ALTER TABLE users DROP COLUMN age;'']
     = [''ALTER TABLE users DROP COLUMN age;'', ''DROP TABLE sessions;''] \<and>
   first_occurrences [''ALTER TABLE users DROP COLUMN age;'', ''DROP TABLE sessions;'',
                      ''ALTER TABLE users DROP COLUMN age;'']
     = [''ALTER TABLE users DROP COLUMN age;'', ''DROP TABLE sessions;''] \<and>
   queries (trace (singlestorePush accepting_driver answer_yes [()] example_suggestions
            [''DROP TABLE sessions;'', ''DROP TABLE sessions;''] False False False example_world))
     = [''ALTER TABLE users DROP COLUMN age;'', ''DROP TABLE sessions;'', ''DROP TABLE sessions;''] \<and>
   queries (trace (mysqlPush accepting_driver answer_yes [()] example_suggestions
            [''DROP TABLE sessions;'', ''DROP TABLE sessions;''] False False False example_world))
     = [''ALTER TABLE users DROP COLUMN age;'', ''DROP TABLE sessions;'', ''DROP TABLE sessions;'']"
proof -
  have u: "unique_statements [''ALTER TABLE users DROP COLUMN age;'', ''DROP TABLE sessions;'',
                      ''ALTER TABLE users DROP COLUMN age;'']
     = [''ALTER TABLE users DROP COLUMN age;'', ''DROP TABLE sessions;'']"
    "unique_statements [''DROP TABLE sessions;'', ''DROP TABLE sessions;''] = [''DROP TABLE sessions;'']"
    by (simp_all add: unique_statements_def push_if_new_def)
  have h: "status example_world = Running" "[()] \<noteq> []" "\<forall>p. answer_yes p \<noteq> Some 0"
    "\<forall>s c. \<exists>c'. accepting_driver s c = Resolved c'"
    by (simp_all add: example_world_def answer_yes_def accepting_driver_def)
  note t = executed_lists_deduplicated [where w = example_world and q = accepting_driver
      and select = answer_yes and sg = example_suggestions and filteredStatements = "[()]"
      and filteredSqlStatements = "[''DROP TABLE sessions;'', ''DROP TABLE sessions;'']"
      and strict = False and verbose = False and force = False
      and xs = "[''ALTER TABLE users DROP COLUMN age;'', ''DROP TABLE sessions;'',
                      ''ALTER TABLE users DROP COLUMN age;'']"]
  have s: "statementsToExecute example_suggestions =
      [''ALTER TABLE users DROP COLUMN age;'', ''DROP TABLE sessions;'',
       ''ALTER TABLE users DROP COLUMN age;'']"
    "trace example_world = []"
    by (simp_all add: example_suggestions_def example_world_def)
  from t h show ?thesis
    by (simp only: u s queries.simps append_Nil append_Cons simp_thms)
qed

end
